theory Spec2Isabelle
  imports Main
begin

section \<open>JavaScript values used by the driver\<close>

text \<open>
  The sources are TypeScript: \<^verbatim>\<open>hcloud.ts\<close> (the resource aggregator, class
  \<^verbatim>\<open>HetznerCloud\<close>) and the machine-config Vue component (the configuration
  reconciler). The ids the driver handles are integers, so a JavaScript \<^verbatim>\<open>number\<close>
  is modelled as an integer or \<^verbatim>\<open>NaN\<close>; fractional numbers, infinities and the
  exponent notation of \<^verbatim>\<open>toString\<close> (from 1e21 on) are outside the model.
  \<^verbatim>\<open>undefined\<close> and \<^verbatim>\<open>null\<close> are both \<open>None\<close>: the sources test the two
  together wherever they test either.
\<close>

datatype number = Num int | NaN

fun truthy_number :: "number \<Rightarrow> bool" where
  "truthy_number (Num n) = (n \<noteq> 0)"
| "truthy_number NaN = False"

definition truthy_string :: "string \<Rightarrow> bool" where
  "truthy_string s = (s \<noteq> [])"

definition truthy_bool :: "bool option \<Rightarrow> bool" where
  "truthy_bool b = (b = Some True)"

definition digit_char :: "nat \<Rightarrow> char" where
  "digit_char d = char_of (48 + d)"

fun digits :: "nat \<Rightarrow> string" where
  "digits n = (if n < 10 then [digit_char n] else digits (n div 10) @ [digit_char (n mod 10)])"

declare digits.simps [simp del]

text \<open>\<^verbatim>\<open>Number.prototype.toString()\<close> on an integer, and on \<^verbatim>\<open>NaN\<close>.\<close>

definition toString_int :: "int \<Rightarrow> string" where
  "toString_int i = (if i < 0 then CHR ''-'' # digits (nat (- i)) else digits (nat i))"

fun toString :: "number \<Rightarrow> string" where
  "toString (Num i) = toString_int i"
| "toString NaN = ''NaN''"






text \<open>A value of the host's record that is either a string or a number.\<close>

datatype scalar = JStr string | JNum number




section \<open>The resource aggregator (\<^verbatim>\<open>hcloud.ts\<close>)\<close>

subsection \<open>What the host provides\<close>

text \<open>
  \<^verbatim>\<open>fetch\<close> either rejects (a network error) or resolves to a response with a status,
  its text and, when the text parses as JSON, the parsed body. A request is the URL and
  the headers; the getters only issue \<^verbatim>\<open>GET\<close> requests without a body.
\<close>

record LocationResponse =
  loc_name :: string
  loc_city :: string
  loc_country :: string
  loc_network_zone :: string

record price =
  price_location :: string
  price_monthly_gross :: string

record ServerTypeResponse =
  st_name :: string
  st_deprecated :: bool
  st_architecture :: string
  st_cores :: number
  st_memory :: number
  st_disk :: number
  st_cpu_type :: string
  st_prices :: "price list"

record ImageResponse =
  img_id :: number
  img_name :: string
  img_architecture :: string
  img_description :: string

record PlacementGroupResponse =
  pg_id :: number
  pg_name :: string

record NetworkResponse =
  net_id :: number
  net_name :: string
  net_ip_range :: string

record FirewallResponse =
  fw_id :: number
  fw_name :: string

record SshKeyResponse =
  key_id :: number
  key_name :: string

text \<open>
  A parsed body. A field that is absent (or the whole body being \<^verbatim>\<open>null\<close>) is
  \<open>None\<close>: the getters read every field through \<^verbatim>\<open>?.\<close>. \<open>last_page\<close> is
  \<^verbatim>\<open>meta.pagination.last_page\<close>.
\<close>

record json_body =
  locations :: "LocationResponse list option"
  server_types :: "ServerTypeResponse list option"
  images :: "ImageResponse list option"
  placement_groups :: "PlacementGroupResponse list option"
  networks :: "NetworkResponse list option"
  firewalls :: "FirewallResponse list option"
  ssh_keys :: "SshKeyResponse list option"
  last_page :: "number option"

datatype fetch_result = NetworkError | Response nat string "json_body option"

text \<open>
  \<open>localeCompare\<close> is the engine's collation and \<open>toFixed2 s\<close> stands for
  \<^verbatim>\<open>Number(s).toFixed(2)\<close> (floating point); both are taken as given.
\<close>

record host =
  fetch :: "string \<Rightarrow> (string \<times> string) list \<Rightarrow> fetch_result"
  localeCompare :: "string \<Rightarrow> string \<Rightarrow> int"
  toFixed2 :: "string \<Rightarrow> string"

datatype error = FetchRejected | AuthenticationFailed | HttpError nat string | JsonError

datatype option_value = VStr string | VNum number

record HetznerOption =
  opt_label :: string
  opt_value :: option_value
  opt_city :: "string option"
  opt_country :: "string option"
  opt_networkZone :: "string option"
  opt_disabled :: "bool option"
  opt_kind :: "string option"

definition plain_option :: "option_value \<Rightarrow> string \<Rightarrow> HetznerOption" where
  "plain_option v l =
     \<lparr>opt_label = l, opt_value = v, opt_city = None, opt_country = None,
      opt_networkZone = None, opt_disabled = None, opt_kind = None\<rparr>"

subsection \<open>\<^verbatim>\<open>request\<close>\<close>

definition BASE_URL :: string where
  "BASE_URL = ''/meta/proxy/api.hetzner.cloud/v1''"

definition request_headers :: "string \<Rightarrow> (string \<times> string) list" where
  "request_headers credentialId =
     [(''X-Api-CattleAuth-Header'', ''Bearer credID='' @ credentialId @ '' passwordField=apiToken''),
      (''Accept'', ''application/json'')]"

definition request :: "host \<Rightarrow> string \<Rightarrow> string \<Rightarrow> error + json_body" where
  "request h credentialId endpoint =
     (case fetch h (BASE_URL @ endpoint) (request_headers credentialId) of
        NetworkError \<Rightarrow> Inl FetchRejected
      | Response status errorText data \<Rightarrow>
          if \<not> (200 \<le> status \<and> status \<le> 299) then
            (if status = 401 then Inl AuthenticationFailed else Inl (HttpError status errorText))
          else (case data of None \<Rightarrow> Inl JsonError | Some d \<Rightarrow> Inr d))"

subsection \<open>The pagination loop\<close>

text \<open>
  Every getter repeats the same \<^verbatim>\<open>do ... while\<close> loop; only the path and the field
  of the body differ, so the loop is written once over both. \<open>req page\<close> is the request
  for a page, \<open>items\<close> the field. The loop does not end on a transport that always
  answers with a non-empty page and a larger \<open>last_page\<close>: that is \<open>None\<close>.
\<close>

definition length_truthy :: "'a list option \<Rightarrow> bool" where
  "length_truthy xs = (case xs of None \<Rightarrow> False | Some l \<Rightarrow> length l \<noteq> 0)"

definition or_empty :: "'a list option \<Rightarrow> 'a list" where
  "or_empty xs = (case xs of None \<Rightarrow> [] | Some l \<Rightarrow> l)"

definition page_le :: "int \<Rightarrow> number option \<Rightarrow> bool" where
  "page_le page lp = (case lp of Some (Num n) \<Rightarrow> page \<le> n | _ \<Rightarrow> False)"

partial_function (option) fetch_pages ::
  "(int \<Rightarrow> error + json_body) \<Rightarrow> (json_body \<Rightarrow> 'a list option) \<Rightarrow> int \<Rightarrow> 'a list
     \<Rightarrow> (error + 'a list) option"
where
  "fetch_pages req items page acc =
     (case req page of
        Inl e \<Rightarrow> Some (Inl e)
      | Inr response \<Rightarrow>
          if length_truthy (items response) \<and> page_le (page + 1) (last_page response)
          then fetch_pages req items (page + 1) (acc @ or_empty (items response))
          else Some (Inr (acc @ or_empty (items response))))"

definition paged :: "host \<Rightarrow> string \<Rightarrow> string \<Rightarrow> int \<Rightarrow> error + json_body" where
  "paged h credentialId path page = request h credentialId (path @ ''?page='' @ toString_int page)"

text \<open>
  The \<^verbatim>\<open>try ... catch\<close> around a getter's body: any error becomes the empty list,
  and the accumulated items go through the getter's own transform \<open>f\<close>.
\<close>

definition catch_all ::
  "(error + 'a list) option \<Rightarrow> ('a list \<Rightarrow> HetznerOption list) \<Rightarrow> HetznerOption list option"
where
  "catch_all r f = map_option (\<lambda>x. case x of Inl e \<Rightarrow> [] | Inr xs \<Rightarrow> f xs) r"

subsection \<open>\<^verbatim>\<open>Array.prototype.sort\<close> with a comparator\<close>

text \<open>
  The sort is stable; for a consistent comparator its result is the stable sorted
  arrangement, which insertion from the right computes.
\<close>

fun insort_cmp :: "('a \<Rightarrow> 'a \<Rightarrow> int) \<Rightarrow> 'a \<Rightarrow> 'a list \<Rightarrow> 'a list" where
  "insort_cmp cmp x [] = [x]"
| "insort_cmp cmp x (y # ys) = (if cmp x y \<le> 0 then x # y # ys else y # insort_cmp cmp x ys)"

definition sort_cmp :: "('a \<Rightarrow> 'a \<Rightarrow> int) \<Rightarrow> 'a list \<Rightarrow> 'a list" where
  "sort_cmp cmp xs = foldr (insort_cmp cmp) xs []"


subsection \<open>\<^verbatim>\<open>getLocations\<close>\<close>

definition location_cmp :: "host \<Rightarrow> LocationResponse \<Rightarrow> LocationResponse \<Rightarrow> int" where
  "location_cmp h a b =
     (if loc_network_zone a \<noteq> loc_network_zone b
      then localeCompare h (loc_network_zone a) (loc_network_zone b)
      else localeCompare h (loc_name a) (loc_name b))"

text \<open>\<^verbatim>\<open>toUpperCase\<close> on the ASCII letters (the location names are ASCII).\<close>

definition toUpperCase :: "string \<Rightarrow> string" where
  "toUpperCase s =
     map (\<lambda>c. if 97 \<le> (of_char c :: nat) \<and> (of_char c :: nat) \<le> 122
              then char_of ((of_char c :: nat) - 32) else c) s"

definition getCountryName :: "string \<Rightarrow> string" where
  "getCountryName countryCode =
     (case map_of [(''DE'', ''Germany''), (''FI'', ''Finland''), (''US'', ''USA''),
                   (''SG'', ''Singapore''), (''AU'', ''Australia'')] countryCode of
        Some n \<Rightarrow> if truthy_string n then n else countryCode
      | None \<Rightarrow> countryCode)"

definition location_option :: "LocationResponse \<Rightarrow> HetznerOption" where
  "location_option location =
     (let countryName = getCountryName (loc_country location) in
      \<lparr>opt_label = toUpperCase (loc_name location) @ '' - '' @ loc_city location @ '', '' @ countryName,
       opt_value = VStr (loc_name location),
       opt_city = Some (loc_city location),
       opt_country = Some countryName,
       opt_networkZone = Some (loc_network_zone location),
       opt_disabled = None,
       opt_kind = None\<rparr>)"

definition locations_transform :: "host \<Rightarrow> LocationResponse list \<Rightarrow> HetznerOption list" where
  "locations_transform h ls =
     (if length ls = 0 then [] else map location_option (sort_cmp (location_cmp h) ls))"

definition getLocations :: "host \<Rightarrow> string \<Rightarrow> HetznerOption list option" where
  "getLocations h credentialId =
     catch_all (fetch_pages (paged h credentialId ''/locations'') locations 1 [])
       (locations_transform h)"

subsection \<open>\<^verbatim>\<open>getServerTypes\<close>\<close>

text \<open>The non-ASCII characters of the labels, as their UTF-8 bytes.\<close>

definition EURO :: string where
  "EURO = [CHR 0xE2, CHR 0x82, CHR 0xAC]"

definition HEAVY_RULE :: string where
  "HEAVY_RULE = concat (replicate 3 [CHR 0xE2, CHR 0x94, CHR 0x81])"

text \<open>\<^verbatim>\<open>if (location)\<close>: the argument is given and is not the empty string.\<close>

definition location_given :: "string option \<Rightarrow> bool" where
  "location_given location = (case location of None \<Rightarrow> False | Some l \<Rightarrow> truthy_string l)"

definition priced_in :: "string option \<Rightarrow> price \<Rightarrow> bool" where
  "priced_in location p = (Some (price_location p) = location)"

definition name_cmp :: "host \<Rightarrow> ServerTypeResponse \<Rightarrow> ServerTypeResponse \<Rightarrow> int" where
  "name_cmp h a b = localeCompare h (st_name a) (st_name b)"

definition priceLabel :: "host \<Rightarrow> string option \<Rightarrow> ServerTypeResponse \<Rightarrow> string" where
  "priceLabel h location type =
     (if location_given location then
        (case find (priced_in location) (st_prices type) of
           Some p \<Rightarrow> EURO @ toFixed2 h (price_monthly_gross p) @ ''/mo, ''
         | None \<Rightarrow> [])
      else [])"

definition formatServerType :: "host \<Rightarrow> string option \<Rightarrow> ServerTypeResponse \<Rightarrow> HetznerOption" where
  "formatServerType h location type =
     plain_option (VStr (st_name type))
       (st_name type @ '' ('' @ priceLabel h location type @ st_architecture type @ '', ''
          @ toString (st_cores type) @ '' vCPU, '' @ toString (st_memory type) @ '' GB RAM, ''
          @ toString (st_disk type) @ '' GB SSD)'')"

definition dedicated_header :: HetznerOption where
  "dedicated_header =
     \<lparr>opt_label = HEAVY_RULE @ '' DEDICATED CPU SERVERS '' @ HEAVY_RULE,
      opt_value = VStr ''dedicated-header'',
      opt_city = None, opt_country = None, opt_networkZone = None,
      opt_disabled = Some True, opt_kind = Some ''group''\<rparr>"

definition shared_header :: HetznerOption where
  "shared_header =
     \<lparr>opt_label = HEAVY_RULE @ '' SHARED CPU SERVERS '' @ HEAVY_RULE,
      opt_value = VStr ''shared-header'',
      opt_city = None, opt_country = None, opt_networkZone = None,
      opt_disabled = Some True, opt_kind = Some ''group''\<rparr>"

text \<open>The types that survive the two filters (deprecated, not priced in the location).\<close>

definition kept_types :: "string option \<Rightarrow> ServerTypeResponse list \<Rightarrow> ServerTypeResponse list" where
  "kept_types location serverTypes =
     (let serverTypes = filter (\<lambda>type. \<not> st_deprecated type) serverTypes in
      if location_given location
      then filter (\<lambda>type. list_ex (priced_in location) (st_prices type)) serverTypes
      else serverTypes)"

definition sharedTypes :: "host \<Rightarrow> string option \<Rightarrow> ServerTypeResponse list \<Rightarrow> ServerTypeResponse list" where
  "sharedTypes h location serverTypes =
     sort_cmp (name_cmp h) (filter (\<lambda>type. st_cpu_type type = ''shared'') (kept_types location serverTypes))"

definition dedicatedTypes :: "host \<Rightarrow> string option \<Rightarrow> ServerTypeResponse list \<Rightarrow> ServerTypeResponse list" where
  "dedicatedTypes h location serverTypes =
     sort_cmp (name_cmp h) (filter (\<lambda>type. st_cpu_type type = ''dedicated'') (kept_types location serverTypes))"

definition serverTypes_transform ::
  "host \<Rightarrow> string option \<Rightarrow> ServerTypeResponse list \<Rightarrow> HetznerOption list"
where
  "serverTypes_transform h location serverTypes =
     (if length serverTypes = 0 then []
      else
        let shared = sharedTypes h location serverTypes;
            dedicated = dedicatedTypes h location serverTypes;
            result = [];
            result =
              (if length dedicated > 0
               then result @ [dedicated_header] @ map (formatServerType h location) dedicated
               else result);
            result =
              (if length shared > 0
               then (if length dedicated > 0 then result @ [shared_header] else result)
                      @ map (formatServerType h location) shared
               else result)
        in result)"

definition getServerTypes :: "host \<Rightarrow> string \<Rightarrow> string option \<Rightarrow> HetznerOption list option" where
  "getServerTypes h credentialId location =
     catch_all (fetch_pages (paged h credentialId ''/server_types'') server_types 1 [])
       (serverTypes_transform h location)"

subsection \<open>The other getters\<close>

definition image_cmp :: "host \<Rightarrow> ImageResponse \<Rightarrow> ImageResponse \<Rightarrow> int" where
  "image_cmp h a b = localeCompare h (img_name a) (img_name b)"

definition image_option :: "ImageResponse \<Rightarrow> HetznerOption" where
  "image_option img =
     plain_option (VNum (img_id img))
       (img_name img @ '' ('' @ img_architecture img @ '') - '' @ img_description img)"

definition images_transform :: "host \<Rightarrow> ImageResponse list \<Rightarrow> HetznerOption list" where
  "images_transform h imgs = map image_option (sort_cmp (image_cmp h) imgs)"

definition getImages :: "host \<Rightarrow> string \<Rightarrow> HetznerOption list option" where
  "getImages h credentialId =
     catch_all (fetch_pages (paged h credentialId ''/images'') images 1 []) (images_transform h)"

definition placementGroup_option :: "PlacementGroupResponse \<Rightarrow> HetznerOption" where
  "placementGroup_option pg = plain_option (VNum (pg_id pg)) (pg_name pg)"

definition placementGroups_transform :: "PlacementGroupResponse list \<Rightarrow> HetznerOption list" where
  "placementGroups_transform pgs =
     (if length pgs = 0 then [] else map placementGroup_option pgs)"

definition getPlacementGroups :: "host \<Rightarrow> string \<Rightarrow> HetznerOption list option" where
  "getPlacementGroups h credentialId =
     catch_all (fetch_pages (paged h credentialId ''/placement_groups'') placement_groups 1 [])
       placementGroups_transform"

definition network_option :: "NetworkResponse \<Rightarrow> HetznerOption" where
  "network_option network =
     plain_option (VNum (net_id network)) (net_name network @ '' ('' @ net_ip_range network @ '')'')"

definition networks_transform :: "NetworkResponse list \<Rightarrow> HetznerOption list" where
  "networks_transform ns = (if length ns = 0 then [] else map network_option ns)"

definition getNetworks :: "host \<Rightarrow> string \<Rightarrow> HetznerOption list option" where
  "getNetworks h credentialId =
     catch_all (fetch_pages (paged h credentialId ''/networks'') networks 1 []) networks_transform"

definition firewall_option :: "FirewallResponse \<Rightarrow> HetznerOption" where
  "firewall_option firewall = plain_option (VNum (fw_id firewall)) (fw_name firewall)"

definition firewalls_transform :: "FirewallResponse list \<Rightarrow> HetznerOption list" where
  "firewalls_transform fs = (if length fs = 0 then [] else map firewall_option fs)"

definition getFirewalls :: "host \<Rightarrow> string \<Rightarrow> HetznerOption list option" where
  "getFirewalls h credentialId =
     catch_all (fetch_pages (paged h credentialId ''/firewalls'') firewalls 1 []) firewalls_transform"

definition sshKey_option :: "SshKeyResponse \<Rightarrow> HetznerOption" where
  "sshKey_option key = plain_option (VNum (key_id key)) (key_name key)"

definition sshKeys_transform :: "SshKeyResponse list \<Rightarrow> HetznerOption list" where
  "sshKeys_transform ks = (if length ks = 0 then [] else map sshKey_option ks)"

definition getSshKeys :: "host \<Rightarrow> string \<Rightarrow> HetznerOption list option" where
  "getSshKeys h credentialId =
     catch_all (fetch_pages (paged h credentialId ''/ssh_keys'') ssh_keys 1 []) sshKeys_transform"

subsection \<open>The second copy of the aggregator\<close>

text \<open>
  The repository holds a second file with the same class, whose \<^verbatim>\<open>getLocations\<close>
  issues one request for \<^verbatim>\<open>/locations\<close> and reads that response only:
  \<^verbatim>\<open>const response = await this.request('/locations');\<close>,
  \<^verbatim>\<open>if (!response?.locations || !Array.isArray(response.locations)) return [];\<close>,
  then the same sort and map.
\<close>

definition getLocations_single :: "host \<Rightarrow> string \<Rightarrow> HetznerOption list" where
  "getLocations_single h credentialId =
     (case request h credentialId ''/locations'' of
        Inl e \<Rightarrow> []
      | Inr response \<Rightarrow>
          (case locations response of
             None \<Rightarrow> []
           | Some ls \<Rightarrow> map location_option (sort_cmp (location_cmp h) ls)))"


subsection \<open>The getters, by resource kind\<close>

text \<open>
  The seven getters share one shape; the kind names the getter, so that a property can
  be stated for all of them at once. \<open>kind_path\<close> is the path the getter requests and
  \<open>item_count\<close> the length of the array it reads from a body.
\<close>

datatype kind =
  Locations | ServerTypes "string option" | Images | PlacementGroups | Networks | Firewalls | SshKeys

fun fetchKind :: "host \<Rightarrow> string \<Rightarrow> kind \<Rightarrow> HetznerOption list option" where
  "fetchKind h credentialId Locations = getLocations h credentialId"
| "fetchKind h credentialId (ServerTypes location) = getServerTypes h credentialId location"
| "fetchKind h credentialId Images = getImages h credentialId"
| "fetchKind h credentialId PlacementGroups = getPlacementGroups h credentialId"
| "fetchKind h credentialId Networks = getNetworks h credentialId"
| "fetchKind h credentialId Firewalls = getFirewalls h credentialId"
| "fetchKind h credentialId SshKeys = getSshKeys h credentialId"






text \<open>The items a page contributes, and whether the loop goes on after it.\<close>

definition items_at ::
  "(int \<Rightarrow> error + json_body) \<Rightarrow> (json_body \<Rightarrow> 'a list option) \<Rightarrow> int \<Rightarrow> 'a list"
where
  "items_at req items k = (case req k of Inl e \<Rightarrow> [] | Inr b \<Rightarrow> or_empty (items b))"

definition continues ::
  "(int \<Rightarrow> error + json_body) \<Rightarrow> (json_body \<Rightarrow> 'a list option) \<Rightarrow> int \<Rightarrow> bool"
where
  "continues req items k =
     (case req k of
        Inl e \<Rightarrow> False
      | Inr b \<Rightarrow> length_truthy (items b) \<and> page_le (k + 1) (last_page b))"

text \<open>
  The values (names or ids) of the items a getter accumulated over its pages, before its
  transform; the empty list when a request failed.
\<close>

definition accumulated ::
  "host \<Rightarrow> string \<Rightarrow> string \<Rightarrow> (json_body \<Rightarrow> 'a list option) \<Rightarrow> 'a list option"
where
  "accumulated h credentialId path items =
     map_option (\<lambda>x. case x of Inl e \<Rightarrow> [] | Inr xs \<Rightarrow> xs)
       (fetch_pages (paged h credentialId path) items 1 [])"

fun fetched_values :: "host \<Rightarrow> string \<Rightarrow> kind \<Rightarrow> option_value list option" where
  "fetched_values h c Locations =
     map_option (map (\<lambda>x. VStr (loc_name x))) (accumulated h c ''/locations'' locations)"
| "fetched_values h c (ServerTypes location) =
     map_option (map (\<lambda>x. VStr (st_name x))) (accumulated h c ''/server_types'' server_types)"
| "fetched_values h c Images =
     map_option (map (\<lambda>x. VNum (img_id x))) (accumulated h c ''/images'' images)"
| "fetched_values h c PlacementGroups =
     map_option (map (\<lambda>x. VNum (pg_id x))) (accumulated h c ''/placement_groups'' placement_groups)"
| "fetched_values h c Networks =
     map_option (map (\<lambda>x. VNum (net_id x))) (accumulated h c ''/networks'' networks)"
| "fetched_values h c Firewalls =
     map_option (map (\<lambda>x. VNum (fw_id x))) (accumulated h c ''/firewalls'' firewalls)"
| "fetched_values h c SshKeys =
     map_option (map (\<lambda>x. VNum (key_id x))) (accumulated h c ''/ssh_keys'' ssh_keys)"


section \<open>The configuration reconciler (the machine-config component)\<close>

subsection \<open>The two records\<close>

text \<open>
  \<^verbatim>\<open>ServerConfiguration\<close> is the component's reactive state; every field of the
  interface is optional. A label object is the list of its entries in enumeration order
  (keys distinct); a label read back from a string without \<^verbatim>\<open>=\<close> has the value
  \<^verbatim>\<open>undefined\<close>.
\<close>

type_synonym labels = "(string \<times> string option) list"

record ServerConfiguration =
  disablePublicNetwork :: "bool option"
  disablePublicIpv4 :: "bool option"
  disablePublicIpv6 :: "bool option"
  usePrivateNetwork :: "bool option"
  sshKeyId :: "number option"
  firewallIds :: "number list option"
  networkIds :: "number list option"
  placementGroupId :: "number option"
  serverImage :: "number option"
  serverType :: "string option"
  serverLocation :: "string option"
  additionalUserData :: "string option"
  serverLabels :: "labels option"

text \<open>
  \<^verbatim>\<open>props.value\<close>, the host's record (typed \<^verbatim>\<open>any\<close>). Its fields carry the prefix
  \<open>v_\<close> here. An id is a string or a number; \<open>v_networks\<close> and \<open>v_firewalls\<close> are
  \<open>None\<close> when the field is not an array.
\<close>

record props_value =
  v_serverType :: "scalar option"
  v_serverLocation :: "scalar option"
  v_imageId :: "scalar option"
  v_placementGroup :: "scalar option"
  v_networks :: "scalar list option"
  v_firewalls :: "scalar list option"
  v_existingKeyId :: "scalar option"
  v_usePrivateNetwork :: "bool option"
  v_disablePublic :: "bool option"
  v_disablePublicIpv4 :: "bool option"
  v_disablePublicIpv6 :: "bool option"
  v_additionalUserData :: "string option"
  v_userDataFromFile :: "bool option"
  v_serverLabel :: "string list option"

subsection \<open>Labels: \<^verbatim>\<open>Object.entries\<close>, \<^verbatim>\<open>split\<close>, \<^verbatim>\<open>Object.fromEntries\<close>\<close>

text \<open>A value inside a template literal: \<^verbatim>\<open>undefined\<close> prints as its name.\<close>

definition template_string :: "string option \<Rightarrow> string" where
  "template_string v = (case v of None \<Rightarrow> ''undefined'' | Some s \<Rightarrow> s)"

definition label_string :: "string \<times> string option \<Rightarrow> string" where
  "label_string e = fst e @ ''='' @ template_string (snd e)"

text \<open>\<^verbatim>\<open>s.split(c)\<close> with a one-character separator: a cut at every occurrence.\<close>

fun split :: "char \<Rightarrow> string \<Rightarrow> string list" where
  "split c [] = [[]]"
| "split c (x # xs) =
     (if x = c then [] # split c xs
      else (case split c xs of [] \<Rightarrow> [[x]] | w # ws \<Rightarrow> (x # w) # ws))"




subsection \<open>Outbound sync: what \<^verbatim>\<open>updateValue\<close> assigns\<close>

definition id_string :: "number \<Rightarrow> scalar" where
  "id_string n = JStr (toString n)"

definition assign_value :: "ServerConfiguration \<Rightarrow> props_value \<Rightarrow> props_value" where
  "assign_value c v =
     (let v = v\<lparr>v_serverType := map_option JStr (serverType c)\<rparr>;
          v = v\<lparr>v_serverLocation := map_option JStr (serverLocation c)\<rparr>;
          v = v\<lparr>v_imageId := map_option id_string (serverImage c)\<rparr>;
          v = v\<lparr>v_placementGroup :=
                 (case placementGroupId c of Some n \<Rightarrow> Some (id_string n) | None \<Rightarrow> None)\<rparr>;
          v = v\<lparr>v_networks :=
                 Some (case networkIds c of Some ids \<Rightarrow> map id_string ids | None \<Rightarrow> [])\<rparr>;
          v = v\<lparr>v_firewalls :=
                 Some (case firewallIds c of Some ids \<Rightarrow> map id_string ids | None \<Rightarrow> [])\<rparr>;
          v = v\<lparr>v_existingKeyId :=
                 (case sshKeyId c of Some n \<Rightarrow> Some (id_string n) | None \<Rightarrow> None)\<rparr>;
          v = v\<lparr>v_usePrivateNetwork := usePrivateNetwork c\<rparr>;
          v = (if truthy_bool (disablePublicNetwork c)
               then v\<lparr>v_disablePublic := Some True,
                      v_disablePublicIpv4 := Some False,
                      v_disablePublicIpv6 := Some False\<rparr>
               else v\<lparr>v_disablePublic := Some False,
                      v_disablePublicIpv4 := disablePublicIpv4 c,
                      v_disablePublicIpv6 := disablePublicIpv6 c\<rparr>);
          v = v\<lparr>v_additionalUserData := additionalUserData c\<rparr>;
          v = v\<lparr>v_userDataFromFile := Some True\<rparr>;
          v = v\<lparr>v_serverLabel :=
                 Some (case serverLabels c of Some ls \<Rightarrow> map label_string ls | None \<Rightarrow> [])\<rparr>
      in v)"

subsection \<open>Inbound sync: what the \<^verbatim>\<open>props.value\<close> watcher derives\<close>


subsection \<open>Validation\<close>

definition truthy_opt :: "('a \<Rightarrow> bool) \<Rightarrow> 'a option \<Rightarrow> bool" where
  "truthy_opt t x = (case x of None \<Rightarrow> False | Some y \<Rightarrow> t y)"

definition validate :: "ServerConfiguration \<Rightarrow> bool" where
  "validate newValue =
     (let valid = True;
          valid =
            (if \<not> truthy_opt truthy_number (serverImage newValue)
                \<or> \<not> truthy_opt truthy_string (serverType newValue)
                \<or> \<not> truthy_opt truthy_string (serverLocation newValue)
             then False else valid);
          valid =
            (if (truthy_bool (disablePublicNetwork newValue)
                 \<or> truthy_bool (disablePublicIpv4 newValue)
                 \<or> truthy_bool (disablePublicIpv6 newValue))
                \<and> \<not> truthy_bool (usePrivateNetwork newValue)
             then False else valid);
          valid =
            (if truthy_bool (usePrivateNetwork newValue) \<and> \<not> length_truthy (networkIds newValue)
             then False else valid)
      in valid)"

subsection \<open>The component and its watchers\<close>

text \<open>
  The state the watchers share. \<open>hcloud\<close> is the \<^verbatim>\<open>HetznerCloud\<close> instance (its
  credential id) once the component is mounted with a credential. \<open>emitted\<close> lists the
  \<^verbatim>\<open>validationChanged\<close> events sent to the host. \<open>trace\<close> is not a field of the
  source: it records each time a sync path acts, so that properties about when they
  act can be stated.
\<close>

datatype sync_action = OutboundSync | InboundSync

record component =
  serverConfiguration :: ServerConfiguration
  props :: props_value
  isValid :: bool
  syncingToProps :: bool
  syncingFromProps :: bool
  loadingData :: bool
  hcloud :: "string option"
  serverTypes :: "HetznerOption list"
  emitted :: "bool list"
  trace :: "sync_action list"

text \<open>
  An \<^verbatim>\<open>async\<close> function runs up to its first \<^verbatim>\<open>await\<close> when it is called and
  resumes later. \<^verbatim>\<open>updateValue\<close> up to \<^verbatim>\<open>await nextTick()\<close>, and its resumption:
\<close>

definition updateValue :: "component \<Rightarrow> component" where
  "updateValue s =
     (if isValid s
      then s\<lparr>syncingToProps := True,
             props := assign_value (serverConfiguration s) (props s),
             trace := trace s @ [OutboundSync]\<rparr>
      else s)"




text \<open>The watcher of \<^verbatim>\<open>serverConfiguration\<close>, up to the \<^verbatim>\<open>await\<close> inside \<^verbatim>\<open>updateValue\<close>.\<close>

definition config_watcher :: "component \<Rightarrow> component" where
  "config_watcher s =
     (let valid = validate (serverConfiguration s);
          s = s\<lparr>isValid := valid, emitted := emitted s @ [valid]\<rparr>
      in if valid \<and> \<not> syncingFromProps s then updateValue s else s)"

text \<open>
  The watcher of \<^verbatim>\<open>serverConfiguration.serverLocation\<close>: the part after the
  \<^verbatim>\<open>await\<close>, given the fetched list, and the whole watcher. It is \<open>None\<close> when the
  fetch does not return.
\<close>

fun value_is :: "option_value \<Rightarrow> string option \<Rightarrow> bool" where
  "value_is (VStr v) (Some t) = (v = t)"
| "value_is _ _ = False"

definition location_fetched :: "HetznerOption list \<Rightarrow> component \<Rightarrow> component" where
  "location_fetched types s =
     (let s = s\<lparr>serverTypes := types\<rparr>;
          s = (if \<not> list_ex (\<lambda>type. value_is (opt_value type) (serverType (serverConfiguration s)))
                     (serverTypes s)
               then s\<lparr>serverConfiguration := (serverConfiguration s)\<lparr>serverType := None\<rparr>\<rparr>
               else s)
      in s\<lparr>loadingData := False\<rparr>)"

definition location_watcher :: "host \<Rightarrow> string option \<Rightarrow> component \<Rightarrow> component option" where
  "location_watcher h newLocation s =
     (case hcloud s of
        None \<Rightarrow> Some s
      | Some credentialId \<Rightarrow>
          map_option (\<lambda>types. location_fetched types (s\<lparr>loadingData := True\<rparr>))
            (getServerTypes h credentialId newLocation))"

subsection \<open>Runs of the component\<close>




definition outbound_syncs :: "component \<Rightarrow> nat" where
  "outbound_syncs s = length (filter (\<lambda>a. a = OutboundSync) (trace s))"



subsection \<open>States that survive the round trip\<close>




section \<open>Concrete inputs\<close>

text \<open>The values at which the theorems below are instantiated.\<close>

definition valid_configuration :: ServerConfiguration where
  "valid_configuration =
     \<lparr>disablePublicNetwork = Some False, disablePublicIpv4 = Some False,
      disablePublicIpv6 = Some False, usePrivateNetwork = Some True,
      sshKeyId = Some (Num 7), firewallIds = Some [Num 3], networkIds = Some [Num 11],
      placementGroupId = None, serverImage = Some (Num 42), serverType = Some ''cx22'',
      serverLocation = Some ''fsn1'', additionalUserData = Some ''#cloud-config'',
      serverLabels = Some [(''env'', Some ''prod'')]\<rparr>"

definition empty_value :: props_value where
  "empty_value =
     \<lparr>v_serverType = None, v_serverLocation = None, v_imageId = None, v_placementGroup = None,
      v_networks = None, v_firewalls = None, v_existingKeyId = None,
      v_usePrivateNetwork = None, v_disablePublic = None, v_disablePublicIpv4 = None,
      v_disablePublicIpv6 = None, v_additionalUserData = None, v_userDataFromFile = None,
      v_serverLabel = None\<rparr>"

definition component_of :: "ServerConfiguration \<Rightarrow> component" where
  "component_of c =
     \<lparr>serverConfiguration = c, props = empty_value, isValid = True,
      syncingToProps = False, syncingFromProps = False, loadingData = False,
      hcloud = None, serverTypes = [], emitted = [], trace = []\<rparr>"

text \<open>A comparator for the examples: the order of the strings' bytes.\<close>

fun byte_compare :: "string \<Rightarrow> string \<Rightarrow> int" where
  "byte_compare [] [] = 0"
| "byte_compare [] (y # ys) = - 1"
| "byte_compare (x # xs) [] = 1"
| "byte_compare (x # xs) (y # ys) =
     (if (of_char x :: nat) < of_char y then - 1
      else if (of_char y :: nat) < of_char x then 1
      else byte_compare xs ys)"

definition fsn1 :: LocationResponse where
  "fsn1 = \<lparr>loc_name = ''fsn1'', loc_city = ''Falkenstein'', loc_country = ''DE'',
           loc_network_zone = ''eu-central''\<rparr>"

definition nbg1 :: LocationResponse where
  "nbg1 = \<lparr>loc_name = ''nbg1'', loc_city = ''Nuremberg'', loc_country = ''DE'',
           loc_network_zone = ''eu-central''\<rparr>"

definition ash :: LocationResponse where
  "ash = \<lparr>loc_name = ''ash'', loc_city = ''Ashburn'', loc_country = ''US'',
          loc_network_zone = ''us-east''\<rparr>"

definition cx22 :: ServerTypeResponse where
  "cx22 = \<lparr>st_name = ''cx22'', st_deprecated = False, st_architecture = ''x86'',
           st_cores = Num 2, st_memory = Num 4, st_disk = Num 40, st_cpu_type = ''shared'',
           st_prices = [\<lparr>price_location = ''nbg1'', price_monthly_gross = ''4.5100''\<rparr>,
                        \<lparr>price_location = ''fsn1'', price_monthly_gross = ''4.5100''\<rparr>]\<rparr>"

definition cax11 :: ServerTypeResponse where
  "cax11 = \<lparr>st_name = ''cax11'', st_deprecated = False, st_architecture = ''arm'',
            st_cores = Num 2, st_memory = Num 4, st_disk = Num 40, st_cpu_type = ''shared'',
            st_prices = [\<lparr>price_location = ''fsn1'', price_monthly_gross = ''3.9200''\<rparr>]\<rparr>"

definition ccx13 :: ServerTypeResponse where
  "ccx13 = \<lparr>st_name = ''ccx13'', st_deprecated = False, st_architecture = ''x86'',
            st_cores = Num 2, st_memory = Num 8, st_disk = Num 80, st_cpu_type = ''dedicated'',
            st_prices = [\<lparr>price_location = ''fsn1'', price_monthly_gross = ''14.8600''\<rparr>]\<rparr>"

definition cx11 :: ServerTypeResponse where
  "cx11 = \<lparr>st_name = ''cx11'', st_deprecated = True, st_architecture = ''x86'',
           st_cores = Num 1, st_memory = Num 2, st_disk = Num 20, st_cpu_type = ''shared'',
           st_prices = [\<lparr>price_location = ''fsn1'', price_monthly_gross = ''3.2900''\<rparr>]\<rparr>"

definition ubuntu :: ImageResponse where
  "ubuntu = \<lparr>img_id = Num 42, img_name = ''ubuntu-24.04'', img_architecture = ''x86'',
             img_description = ''Ubuntu 24.04''\<rparr>"

definition no_items :: json_body where
  "no_items =
     \<lparr>locations = None, server_types = None, images = None, placement_groups = None,
      networks = None, firewalls = None, ssh_keys = None, last_page = None\<rparr>"

text \<open>
  A provider with two pages of locations, one page of server types, and images whose
  second page is refused with status 401. A request for \<^verbatim>\<open>/locations\<close> without a
  page is answered with the first page.
\<close>

definition demo_fetch :: "string \<Rightarrow> (string \<times> string) list \<Rightarrow> fetch_result" where
  "demo_fetch url headers =
     (if url = ''/meta/proxy/api.hetzner.cloud/v1/locations?page=1''
         \<or> url = ''/meta/proxy/api.hetzner.cloud/v1/locations''
      then Response 200 [] (Some (no_items\<lparr>locations := Some [nbg1, fsn1], last_page := Some (Num 2)\<rparr>))
      else if url = ''/meta/proxy/api.hetzner.cloud/v1/locations?page=2''
      then Response 200 [] (Some (no_items\<lparr>locations := Some [ash], last_page := Some (Num 2)\<rparr>))
      else if url = ''/meta/proxy/api.hetzner.cloud/v1/server_types?page=1''
      then Response 200 []
             (Some (no_items\<lparr>server_types := Some [cx22, ccx13, cx11, cax11], last_page := Some (Num 1)\<rparr>))
      else if url = ''/meta/proxy/api.hetzner.cloud/v1/images?page=1''
      then Response 200 [] (Some (no_items\<lparr>images := Some [ubuntu], last_page := Some (Num 2)\<rparr>))
      else if url = ''/meta/proxy/api.hetzner.cloud/v1/images?page=2''
      then Response 401 ''unauthorized'' None
      else NetworkError)"

text \<open>
  Two decimals by cutting the string; on the prices of the example this is what
  \<^verbatim>\<open>Number(s).toFixed(2)\<close> gives.
\<close>

definition demo_toFixed2 :: "string \<Rightarrow> string" where
  "demo_toFixed2 s =
     takeWhile (\<lambda>c. c \<noteq> CHR ''.'') s @ take 3 (dropWhile (\<lambda>c. c \<noteq> CHR ''.'') s)"

definition demo_host :: host where
  "demo_host = \<lparr>fetch = demo_fetch, localeCompare = byte_compare, toFixed2 = demo_toFixed2\<rparr>"

text \<open>A provider whose second page of locations repeats the item of the first.\<close>

definition repeating_fetch :: "string \<Rightarrow> (string \<times> string) list \<Rightarrow> fetch_result" where
  "repeating_fetch url headers =
     (if url = ''/meta/proxy/api.hetzner.cloud/v1/locations?page=1''
         \<or> url = ''/meta/proxy/api.hetzner.cloud/v1/locations?page=2''
      then Response 200 [] (Some (no_items\<lparr>locations := Some [fsn1], last_page := Some (Num 2)\<rparr>))
      else NetworkError)"

definition repeating_host :: host where
  "repeating_host =
     \<lparr>fetch = repeating_fetch, localeCompare = byte_compare, toFixed2 = demo_toFixed2\<rparr>"


section \<open>Properties\<close>

subsection \<open>Decimal round trip\<close>


















subsection \<open>Validation\<close>

lemma validate_unfold:
  "validate c =
     (truthy_opt truthy_number (serverImage c)
      \<and> truthy_opt truthy_string (serverType c)
      \<and> truthy_opt truthy_string (serverLocation c)
      \<and> \<not> ((truthy_bool (disablePublicNetwork c) \<or> truthy_bool (disablePublicIpv4 c)
             \<or> truthy_bool (disablePublicIpv6 c)) \<and> \<not> truthy_bool (usePrivateNetwork c))
      \<and> \<not> (truthy_bool (usePrivateNetwork c) \<and> \<not> length_truthy (networkIds c)))"
  by (simp add: validate_def)

lemma length_truthy_iff: "length_truthy xs = (\<exists>l. xs = Some l \<and> l \<noteq> [])"
  by (cases xs) (simp_all add: length_truthy_def)

lemma updateValue_keeps_signal:
  "isValid (updateValue s) = isValid s" "emitted (updateValue s) = emitted s"
  by (simp_all add: updateValue_def)

lemma config_watcher_signal:
  "isValid (config_watcher s) = validate (serverConfiguration s)"
  "emitted (config_watcher s) = emitted s @ [validate (serverConfiguration s)]"
  by (simp_all add: config_watcher_def Let_def updateValue_keeps_signal)

text \<open>
  C3. On every run of the watcher of the configuration, the validity signal (the value
  stored in \<open>isValid\<close> and emitted as \<^verbatim>\<open>validationChanged\<close>) is true if and only if
  (a) instance type, image and location are set, (b) if any of the three disable flags
  is set then use-private-network is set, and (c) if use-private-network is set then the
  list of network ids is not empty. "Set" is what the source tests, the truth value of
  the field in a condition: present and not the empty string, 0 or \<^verbatim>\<open>NaN\<close>; for a
  flag, \<^verbatim>\<open>true\<close>.
\<close>

theorem validity_signal_iff:
  "isValid (config_watcher s) =
     ((truthy_opt truthy_string (serverType (serverConfiguration s))
        \<and> truthy_opt truthy_number (serverImage (serverConfiguration s))
        \<and> truthy_opt truthy_string (serverLocation (serverConfiguration s)))
      \<and> (truthy_bool (disablePublicNetwork (serverConfiguration s))
           \<or> truthy_bool (disablePublicIpv4 (serverConfiguration s))
           \<or> truthy_bool (disablePublicIpv6 (serverConfiguration s))
          \<longrightarrow> truthy_bool (usePrivateNetwork (serverConfiguration s)))
      \<and> (truthy_bool (usePrivateNetwork (serverConfiguration s))
          \<longrightarrow> (\<exists>ids. networkIds (serverConfiguration s) = Some ids \<and> ids \<noteq> [])))
   \<and> emitted (config_watcher s) = emitted s @ [isValid (config_watcher s)]"
proof -
  let ?c = "serverConfiguration s"
  have "validate ?c =
     ((truthy_opt truthy_string (serverType ?c) \<and> truthy_opt truthy_number (serverImage ?c)
        \<and> truthy_opt truthy_string (serverLocation ?c))
      \<and> (truthy_bool (disablePublicNetwork ?c) \<or> truthy_bool (disablePublicIpv4 ?c)
           \<or> truthy_bool (disablePublicIpv6 ?c) \<longrightarrow> truthy_bool (usePrivateNetwork ?c))
      \<and> (truthy_bool (usePrivateNetwork ?c)
          \<longrightarrow> (\<exists>ids. networkIds ?c = Some ids \<and> ids \<noteq> [])))"
    unfolding validate_unfold length_truthy_iff by blast
  then show ?thesis by (simp only: config_watcher_signal)
qed

lemma valid_configuration_fields:
  "truthy_opt truthy_string (serverType valid_configuration)"
  "truthy_opt truthy_number (serverImage valid_configuration)"
  "truthy_opt truthy_string (serverLocation valid_configuration)"
  "\<not> truthy_bool (disablePublicNetwork valid_configuration)"
  "\<not> truthy_bool (disablePublicIpv4 valid_configuration)"
  "\<not> truthy_bool (disablePublicIpv6 valid_configuration)"
  "truthy_bool (usePrivateNetwork valid_configuration)"
  "networkIds valid_configuration = Some [Num 11]"
  by (simp_all add: valid_configuration_def truthy_opt_def truthy_string_def truthy_bool_def)

theorem validity_signal_iff_witness:
  "isValid (config_watcher (component_of valid_configuration))
   \<and> \<not> isValid (config_watcher
           (component_of (valid_configuration\<lparr>networkIds := Some []\<rparr>)))
   \<and> \<not> isValid (config_watcher
           (component_of (valid_configuration
              \<lparr>usePrivateNetwork := Some False, disablePublicIpv4 := Some True\<rparr>)))
   \<and> \<not> isValid (config_watcher (component_of (valid_configuration\<lparr>serverImage := None\<rparr>)))"
proof -
  have a: "isValid (config_watcher (component_of valid_configuration))"
    using validity_signal_iff [of "component_of valid_configuration"]
    by (simp add: component_of_def valid_configuration_fields)
  have b: "\<not> isValid (config_watcher (component_of (valid_configuration\<lparr>networkIds := Some []\<rparr>)))"
    using validity_signal_iff [of "component_of (valid_configuration\<lparr>networkIds := Some []\<rparr>)"]
    by (simp add: component_of_def valid_configuration_fields)
  have c: "\<not> isValid (config_watcher (component_of (valid_configuration
              \<lparr>usePrivateNetwork := Some False, disablePublicIpv4 := Some True\<rparr>)))"
    using validity_signal_iff [of "component_of (valid_configuration
              \<lparr>usePrivateNetwork := Some False, disablePublicIpv4 := Some True\<rparr>)"]
    by (simp add: component_of_def valid_configuration_fields truthy_bool_def)
  have d: "\<not> isValid (config_watcher (component_of (valid_configuration\<lparr>serverImage := None\<rparr>)))"
    using validity_signal_iff [of "component_of (valid_configuration\<lparr>serverImage := None\<rparr>)"]
    by (simp add: component_of_def valid_configuration_fields truthy_opt_def)
  from a b c d show ?thesis by blast
qed

text \<open>
  Presence alone is not enough for (a): an image id of 0 and an empty location, both of
  which the inbound sync can produce, leave the state invalid.
\<close>

lemma zero_image_is_invalid: "\<not> validate (valid_configuration\<lparr>serverImage := Some (Num 0)\<rparr>)"
  by (simp add: validate_unfold truthy_opt_def)

lemma empty_location_is_invalid: "\<not> validate (valid_configuration\<lparr>serverLocation := Some []\<rparr>)"
  by (simp add: validate_unfold truthy_opt_def truthy_string_def)

subsection \<open>Outbound sync\<close>

lemma assign_value_flags:
  "v_disablePublic (assign_value c v) = Some (truthy_bool (disablePublicNetwork c))"
  "v_disablePublicIpv4 (assign_value c v) =
     (if truthy_bool (disablePublicNetwork c) then Some False else disablePublicIpv4 c)"
  "v_disablePublicIpv6 (assign_value c v) =
     (if truthy_bool (disablePublicNetwork c) then Some False else disablePublicIpv6 c)"
  by (simp_all add: assign_value_def Let_def)

text \<open>
  C2. When \<^verbatim>\<open>updateValue\<close> runs on a valid state: if \<open>disablePublicNetwork\<close> is true it
  writes \<open>disablePublic = true\<close>, \<open>disablePublicIpv4 = false\<close> and
  \<open>disablePublicIpv6 = false\<close> whatever the two internal protocol flags are; otherwise it
  writes \<open>disablePublic = false\<close> and copies the two protocol flags unchanged.
\<close>

theorem disable_public_precedence:
  assumes "isValid s"
  shows "(disablePublicNetwork (serverConfiguration s) = Some True \<longrightarrow>
            v_disablePublic (props (updateValue s)) = Some True
          \<and> v_disablePublicIpv4 (props (updateValue s)) = Some False
          \<and> v_disablePublicIpv6 (props (updateValue s)) = Some False)
       \<and> (disablePublicNetwork (serverConfiguration s) \<noteq> Some True \<longrightarrow>
            v_disablePublic (props (updateValue s)) = Some False
          \<and> v_disablePublicIpv4 (props (updateValue s)) = disablePublicIpv4 (serverConfiguration s)
          \<and> v_disablePublicIpv6 (props (updateValue s)) = disablePublicIpv6 (serverConfiguration s))"
  using assms by (simp add: updateValue_def assign_value_flags truthy_bool_def)

theorem disable_public_precedence_witness:
  "v_disablePublic (props (updateValue (component_of (valid_configuration
       \<lparr>disablePublicNetwork := Some True, disablePublicIpv4 := Some True,
        disablePublicIpv6 := Some True\<rparr>)))) = Some True
   \<and> v_disablePublicIpv4 (props (updateValue (component_of (valid_configuration
       \<lparr>disablePublicNetwork := Some True, disablePublicIpv4 := Some True,
        disablePublicIpv6 := Some True\<rparr>)))) = Some False
   \<and> v_disablePublicIpv6 (props (updateValue (component_of (valid_configuration
       \<lparr>disablePublicNetwork := Some True, disablePublicIpv4 := Some True,
        disablePublicIpv6 := Some True\<rparr>)))) = Some False
   \<and> v_disablePublic (props (updateValue (component_of (valid_configuration
       \<lparr>disablePublicIpv4 := Some True\<rparr>)))) = Some False
   \<and> v_disablePublicIpv4 (props (updateValue (component_of (valid_configuration
       \<lparr>disablePublicIpv4 := Some True\<rparr>)))) = Some True
   \<and> v_disablePublicIpv6 (props (updateValue (component_of (valid_configuration
       \<lparr>disablePublicIpv4 := Some True\<rparr>)))) = Some False"
proof -
  let ?on = "component_of (valid_configuration
       \<lparr>disablePublicNetwork := Some True, disablePublicIpv4 := Some True,
        disablePublicIpv6 := Some True\<rparr>)"
  let ?off = "component_of (valid_configuration\<lparr>disablePublicIpv4 := Some True\<rparr>)"
  have v: "isValid ?on" "isValid ?off" by (simp_all add: component_of_def)
  have "disablePublicNetwork (serverConfiguration ?on) = Some True"
    by (simp add: component_of_def)
  with disable_public_precedence [OF v(1)]
  have a: "v_disablePublic (props (updateValue ?on)) = Some True
          \<and> v_disablePublicIpv4 (props (updateValue ?on)) = Some False
          \<and> v_disablePublicIpv6 (props (updateValue ?on)) = Some False"
    by blast
  have "disablePublicNetwork (serverConfiguration ?off) \<noteq> Some True"
    by (simp add: component_of_def valid_configuration_def)
  with disable_public_precedence [OF v(2)]
  have "v_disablePublic (props (updateValue ?off)) = Some False
          \<and> v_disablePublicIpv4 (props (updateValue ?off)) = disablePublicIpv4 (serverConfiguration ?off)
          \<and> v_disablePublicIpv6 (props (updateValue ?off)) = disablePublicIpv6 (serverConfiguration ?off)"
    by blast
  then have b: "v_disablePublic (props (updateValue ?off)) = Some False
          \<and> v_disablePublicIpv4 (props (updateValue ?off)) = Some True
          \<and> v_disablePublicIpv6 (props (updateValue ?off)) = Some False"
    by (simp add: component_of_def valid_configuration_def)
  from a b show ?thesis by blast
qed


subsection \<open>The pagination loop\<close>

lemma fetch_pages_continue:
  "continues req items p \<Longrightarrow>
   fetch_pages req items p acc = fetch_pages req items (p + 1) (acc @ items_at req items p)"
  by (subst fetch_pages.simps) (auto simp: continues_def items_at_def split: sum.splits)

lemma fetch_pages_stop:
  "req p = Inr b \<Longrightarrow> \<not> continues req items p \<Longrightarrow>
   fetch_pages req items p acc = Some (Inr (acc @ items_at req items p))"
  by (subst fetch_pages.simps) (auto simp: continues_def items_at_def split: sum.splits)


lemma fetch_pages_run:
  assumes "p \<le> m" "\<forall>k. p \<le> k \<and> k < m \<longrightarrow> continues req items k"
  shows "fetch_pages req items p acc =
           fetch_pages req items m (acc @ concat (map (items_at req items) [p..m - 1]))"
  using assms
proof (induction "nat (m - p)" arbitrary: p acc)
  case 0
  then have "p = m" by simp
  then show ?case by simp
next
  case (Suc n)
  then have lt: "p < m" by linarith
  with Suc.prems have c: "continues req items p" by simp
  have "fetch_pages req items (p + 1) (acc @ items_at req items p) =
          fetch_pages req items m
            ((acc @ items_at req items p) @ concat (map (items_at req items) [p + 1..m - 1]))"
    using Suc.hyps(1) [of "p + 1" "acc @ items_at req items p"] Suc.hyps(2) Suc.prems lt by auto
  moreover have "[p..m - 1] = p # [p + 1..m - 1]" using lt by (simp add: upto_rec1)
  ultimately show ?case using fetch_pages_continue [OF c, of acc] by simp
qed

text \<open>
  The loop is exhaustive: when the pages \<open>p\<close> up to \<open>m - 1\<close> each make it go on and page
  \<open>m\<close> is answered and ends it, the loop returns, and what it returns is the
  concatenation of the item arrays of all the pages \<open>p\<close> to \<open>m\<close>, in page order.
\<close>

lemma fetch_pages_exhaustive:
  assumes "p \<le> m" "\<forall>k. p \<le> k \<and> k < m \<longrightarrow> continues req items k"
    and "req m = Inr b" "\<not> continues req items m"
  shows "fetch_pages req items p acc =
           Some (Inr (acc @ concat (map (items_at req items) [p..m])))"
proof -
  have "[p..m] = [p..m - 1] @ [m]" using assms(1) by (simp add: upto_rec2)
  then show ?thesis
    using fetch_pages_run [OF assms(1,2), of acc] fetch_pages_stop [of req m b items] assms(3,4) by simp
qed


subsection \<open>Requests\<close>








subsection \<open>Failures\<close>



lemma toString_int_small:
  "toString_int 1 = ''1''" "toString_int 2 = ''2''" "toString_int 3 = ''3''"
  by code_simp+




text \<open>
  A first page that parses but carries no item array (or an empty one) is not a failed
  request; it contributes no items, and each getter returns the empty list.
\<close>

lemma first_page_without_items:
  assumes "paged h c path 1 = Inr b" "\<not> length_truthy (items b)" "f [] = []"
  shows "catch_all (fetch_pages (paged h c path) items 1 []) f = Some []"
proof -
  have "\<not> continues (paged h c path) items 1"
    using assms(1,2) by (simp add: continues_def)
  from fetch_pages_stop [OF assms(1) this, of "[]"] assms
  show ?thesis
    by (cases "items b") (simp_all add: catch_all_def items_at_def or_empty_def length_truthy_def)
qed


subsection \<open>Exhaustive accumulation\<close>

lemma accumulated_exhaustive:
  assumes "1 \<le> N"
    and "\<forall>k. 1 \<le> k \<and> k \<le> N \<longrightarrow>
           (\<exists>b. paged h c path k = Inr b \<and> items b = Some (pages k) \<and> pages k \<noteq> []
                \<and> last_page b = Some (Num N))"
  shows "accumulated h c path items = Some (concat (map pages [1..N]))"
proof -
  let ?req = "paged h c path"
  have at: "items_at ?req items k = pages k" if "1 \<le> k" "k \<le> N" for k
    using assms(2) that by (auto simp: items_at_def or_empty_def)
  have go: "\<forall>k. 1 \<le> k \<and> k < N \<longrightarrow> continues ?req items k"
  proof (intro allI impI)
    fix k assume k: "1 \<le> k \<and> k < N"
    with assms(2) obtain b where "?req k = Inr b" "items b = Some (pages k)" "pages k \<noteq> []"
        "last_page b = Some (Num N)"
      by (metis less_imp_le)
    with k show "continues ?req items k"
      by (simp add: continues_def length_truthy_def page_le_def)
  qed
  obtain b where b: "?req N = Inr b" "last_page b = Some (Num N)"
    using assms by blast
  then have stop: "\<not> continues ?req items N"
    by (simp add: continues_def page_le_def)
  have "map (items_at ?req items) [1..N] = map pages [1..N]"
    using at by simp
  with fetch_pages_exhaustive [OF assms(1) go b(1) stop, of "[]"]
  show ?thesis by (simp add: accumulated_def)
qed

text \<open>
  Every getter is its transform applied to what the loop accumulated (each transform
  maps the empty list to the empty list, which is also what an error yields).
\<close>

lemma catch_all_accumulated:
  "f [] = [] \<Longrightarrow>
   catch_all (fetch_pages (paged h c path) items 1 []) f = map_option f (accumulated h c path items)"
  by (cases "fetch_pages (paged h c path) items 1 []")
     (auto simp: catch_all_def accumulated_def split: sum.splits)

lemma sort_cmp_Nil: "sort_cmp cmp [] = []"
  by (simp add: sort_cmp_def)

lemma kept_types_Nil: "kept_types location [] = []"
  by (simp add: kept_types_def)

lemma getters_accumulated:
  "getLocations h c = map_option (locations_transform h) (accumulated h c ''/locations'' locations)"
  "getServerTypes h c location =
     map_option (serverTypes_transform h location) (accumulated h c ''/server_types'' server_types)"
  "getImages h c = map_option (images_transform h) (accumulated h c ''/images'' images)"
  "getPlacementGroups h c =
     map_option placementGroups_transform (accumulated h c ''/placement_groups'' placement_groups)"
  "getNetworks h c = map_option networks_transform (accumulated h c ''/networks'' networks)"
  "getFirewalls h c = map_option firewalls_transform (accumulated h c ''/firewalls'' firewalls)"
  "getSshKeys h c = map_option sshKeys_transform (accumulated h c ''/ssh_keys'' ssh_keys)"
  unfolding getLocations_def getServerTypes_def getImages_def getPlacementGroups_def
    getNetworks_def getFirewalls_def getSshKeys_def
  by (rule catch_all_accumulated;
      simp add: locations_transform_def serverTypes_transform_def images_transform_def
        placementGroups_transform_def networks_transform_def firewalls_transform_def
        sshKeys_transform_def sort_cmp_Nil)+

text \<open>
  With \<open>N\<close> pages of locations, each non-empty and each announcing \<open>last_page = N\<close>,
  \<^verbatim>\<open>getLocations\<close> of \<^verbatim>\<open>hcloud.ts\<close> works on the concatenation of all of them.
\<close>

lemma getLocations_exhaustive:
  assumes "1 \<le> N"
    and "\<forall>k. 1 \<le> k \<and> k \<le> N \<longrightarrow>
           (\<exists>b. paged h c ''/locations'' k = Inr b \<and> locations b = Some (pages k) \<and> pages k \<noteq> []
                \<and> last_page b = Some (Num N))"
  shows "getLocations h c = Some (locations_transform h (concat (map pages [1..N])))"
  using accumulated_exhaustive [OF assms] by (simp add: getters_accumulated)

subsection \<open>The two copies of \<^verbatim>\<open>getLocations\<close> on a provider with two pages\<close>

lemma demo_locations_pages:
  "paged demo_host c ''/locations'' 1 =
     Inr (no_items\<lparr>locations := Some [nbg1, fsn1], last_page := Some (Num 2)\<rparr>)"
  "paged demo_host c ''/locations'' 2 =
     Inr (no_items\<lparr>locations := Some [ash], last_page := Some (Num 2)\<rparr>)"
  by (simp_all add: paged_def request_def demo_host_def demo_fetch_def BASE_URL_def toString_int_small)

lemma demo_locations_single:
  "request demo_host c ''/locations'' =
     Inr (no_items\<lparr>locations := Some [nbg1, fsn1], last_page := Some (Num 2)\<rparr>)"
  by (simp add: request_def demo_host_def demo_fetch_def BASE_URL_def)

lemma demo_locations_accumulated:
  "fetch_pages (paged demo_host c ''/locations'') locations 1 [] = Some (Inr [nbg1, fsn1, ash])"
proof -
  have c1: "continues (paged demo_host c ''/locations'') locations 1"
    by (simp add: continues_def demo_locations_pages no_items_def length_truthy_def page_le_def)
  have c2: "\<not> continues (paged demo_host c ''/locations'') locations 2"
    by (simp add: continues_def demo_locations_pages no_items_def length_truthy_def page_le_def)
  have "fetch_pages (paged demo_host c ''/locations'') locations 1 [] =
          fetch_pages (paged demo_host c ''/locations'') locations 2
            ([] @ items_at (paged demo_host c ''/locations'') locations 1)"
    using fetch_pages_continue [OF c1, of "[]"] by simp
  also have "\<dots> = Some (Inr (([] @ items_at (paged demo_host c ''/locations'') locations 1)
                        @ items_at (paged demo_host c ''/locations'') locations 2))"
    by (rule fetch_pages_stop [OF demo_locations_pages(2) c2])
  finally show ?thesis
    by (simp add: items_at_def demo_locations_pages no_items_def or_empty_def)
qed

lemma demo_sort:
  "sort_cmp (location_cmp demo_host) [nbg1, fsn1, ash] = [fsn1, nbg1, ash]"
  "sort_cmp (location_cmp demo_host) [nbg1, fsn1] = [fsn1, nbg1]"
  by (simp_all add: sort_cmp_def location_cmp_def demo_host_def nbg1_def fsn1_def ash_def)

text \<open>
  C4. The provider \<open>demo_host\<close> has two pages of locations, each announcing
  \<open>last_page = 2\<close>. \<^verbatim>\<open>getLocations\<close> of \<^verbatim>\<open>hcloud.ts\<close> returns the options of all three
  locations; the \<^verbatim>\<open>getLocations\<close> of the second copy returns those of the first page
  only.
\<close>

theorem single_request_sees_first_page_only:
  "getLocations_single demo_host ''cred'' = map location_option [fsn1, nbg1]
   \<and> getLocations demo_host ''cred'' = Some (map location_option [fsn1, nbg1, ash])"
  by (simp add: getLocations_single_def getLocations_def demo_locations_single
      demo_locations_accumulated catch_all_def locations_transform_def demo_sort no_items_def)


subsection \<open>Sorting with a comparator\<close>

lemma set_insort_cmp: "set (insort_cmp cmp x xs) = insert x (set xs)"
  by (induction xs) auto

lemma set_sort_cmp: "set (sort_cmp cmp xs) = set xs"
  by (induction xs) (simp_all add: sort_cmp_def set_insort_cmp)

lemma sort_cmp_Cons: "sort_cmp cmp (x # xs) = insort_cmp cmp x (sort_cmp cmp xs)"
  by (simp add: sort_cmp_def)

lemma sort_cmp_eq_Nil: "(sort_cmp cmp xs = []) = (xs = [])"
  using set_sort_cmp [of cmp xs] by (metis set_empty)

lemma distinct_map_insort_cmp:
  "distinct (map f (insort_cmp cmp x xs)) = (f x \<notin> f ` set xs \<and> distinct (map f xs))"
  by (induction xs) (auto simp: set_insort_cmp)

lemma distinct_map_sort_cmp: "distinct (map f (sort_cmp cmp xs)) = distinct (map f xs)"
  by (induction xs) (simp_all add: sort_cmp_Nil sort_cmp_Cons distinct_map_insort_cmp set_sort_cmp)

lemma sorted_insort_cmp:
  assumes total: "\<forall>a b. cmp a b \<le> 0 \<or> cmp b a \<le> 0"
    and trans: "\<forall>a b c. cmp a b \<le> 0 \<and> cmp b c \<le> 0 \<longrightarrow> cmp a c \<le> 0"
    and "sorted_wrt (\<lambda>a b. cmp a b \<le> 0) xs"
  shows "sorted_wrt (\<lambda>a b. cmp a b \<le> (0::int)) (insort_cmp cmp x xs)"
  using assms(3)
proof (induction xs)
  case Nil
  then show ?case by simp
next
  case (Cons y ys)
  show ?case
  proof (cases "cmp x y \<le> 0")
    case True
    have "\<forall>z\<in>set ys. cmp x z \<le> 0"
    proof
      fix z assume "z \<in> set ys"
      with Cons.prems have "cmp y z \<le> 0" by simp
      with True trans show "cmp x z \<le> 0" by blast
    qed
    with True Cons.prems show ?thesis by simp
  next
    case False
    with total have "cmp y x \<le> 0" by blast
    with False Cons show ?thesis by (auto simp: set_insort_cmp)
  qed
qed

lemma sorted_sort_cmp:
  assumes "\<forall>a b. cmp a b \<le> 0 \<or> cmp b a \<le> 0"
    and "\<forall>a b c. cmp a b \<le> 0 \<and> cmp b c \<le> 0 \<longrightarrow> cmp a c \<le> 0"
  shows "sorted_wrt (\<lambda>a b. cmp a b \<le> (0::int)) (sort_cmp cmp xs)"
  by (induction xs) (simp_all add: sort_cmp_Nil sort_cmp_Cons sorted_insort_cmp [OF assms])

subsection \<open>The shape of the instance-type list\<close>

lemma serverTypes_transform_shape:
  "serverTypes_transform h l sts =
     (if dedicatedTypes h l sts = [] then []
      else dedicated_header # map (formatServerType h l) (dedicatedTypes h l sts))
     @ (if sharedTypes h l sts = [] then []
        else (if dedicatedTypes h l sts = [] then [] else [shared_header])
             @ map (formatServerType h l) (sharedTypes h l sts))"
proof (cases "sts = []")
  case True
  then show ?thesis
    by (simp add: serverTypes_transform_def dedicatedTypes_def sharedTypes_def kept_types_Nil
        sort_cmp_Nil)
next
  case False
  then show ?thesis by (simp add: serverTypes_transform_def Let_def)
qed

lemma set_kept_types:
  "set (kept_types l sts) =
     {t \<in> set sts. \<not> st_deprecated t
        \<and> (location_given l \<longrightarrow> (\<exists>p\<in>set (st_prices t). Some (price_location p) = l))}"
  by (auto simp: kept_types_def Let_def list_ex_iff priced_in_def)

lemma set_dedicatedTypes:
  "set (dedicatedTypes h l sts) =
     {t \<in> set sts. \<not> st_deprecated t
        \<and> (location_given l \<longrightarrow> (\<exists>p\<in>set (st_prices t). Some (price_location p) = l))
        \<and> st_cpu_type t = ''dedicated''}"
  unfolding dedicatedTypes_def set_sort_cmp set_filter set_kept_types by blast

lemma set_sharedTypes:
  "set (sharedTypes h l sts) =
     {t \<in> set sts. \<not> st_deprecated t
        \<and> (location_given l \<longrightarrow> (\<exists>p\<in>set (st_prices t). Some (price_location p) = l))
        \<and> st_cpu_type t = ''shared''}"
  unfolding sharedTypes_def set_sort_cmp set_filter set_kept_types by blast

lemma formatServerType_fields:
  "opt_value (formatServerType h l t) = VStr (st_name t)"
  "opt_kind (formatServerType h l t) = None"
  "opt_disabled (formatServerType h l t) = None"
  by (simp_all add: formatServerType_def plain_option_def)

lemma header_fields:
  "opt_kind dedicated_header = Some ''group''" "opt_disabled dedicated_header = Some True"
  "opt_value dedicated_header = VStr ''dedicated-header''"
  "opt_kind shared_header = Some ''group''" "opt_disabled shared_header = Some True"
  "opt_value shared_header = VStr ''shared-header''"
  by (simp_all add: dedicated_header_def shared_header_def)

lemma headers_differ: "dedicated_header \<noteq> shared_header"
proof
  assume "dedicated_header = shared_header"
  then have "opt_value dedicated_header = opt_value shared_header" by simp
  then show False by (simp add: header_fields)
qed

lemma header_not_formatted:
  "dedicated_header \<noteq> formatServerType h l t" "shared_header \<noteq> formatServerType h l t"
proof -
  show "dedicated_header \<noteq> formatServerType h l t"
  proof
    assume "dedicated_header = formatServerType h l t"
    then have "opt_kind dedicated_header = opt_kind (formatServerType h l t)" by simp
    then show False by (simp add: header_fields formatServerType_fields)
  qed
  show "shared_header \<noteq> formatServerType h l t"
  proof
    assume "shared_header = formatServerType h l t"
    then have "opt_kind shared_header = opt_kind (formatServerType h l t)" by simp
    then show False by (simp add: header_fields formatServerType_fields)
  qed
qed

lemma group_options:
  assumes "x \<in> set (serverTypes_transform h l sts)" "opt_kind x = Some ''group''"
  shows "opt_disabled x = Some True \<and> (x = dedicated_header \<or> x = shared_header)"
  using assms unfolding serverTypes_transform_shape
  by (auto simp: header_fields formatServerType_fields split: if_splits)


lemma length_insort_cmp: "length (insort_cmp cmp x xs) = Suc (length xs)"
  by (induction xs) auto

lemma length_sort_cmp: "length (sort_cmp cmp xs) = length xs"
  by (induction xs) (simp_all add: sort_cmp_Nil sort_cmp_Cons length_insort_cmp)

lemma filter_kept_types:
  "filter P (kept_types l sts) =
     filter (\<lambda>t. \<not> st_deprecated t
        \<and> (location_given l \<longrightarrow> (\<exists>p\<in>set (st_prices t). Some (price_location p) = l)) \<and> P t) sts"
  by (auto simp: kept_types_def Let_def list_ex_iff priced_in_def intro: filter_cong)

text \<open>
  C7. For every instance-type result, with \<open>sts\<close> the types the loop accumulated over
  the pages and \<open>D\<close> the dedicated and \<open>S\<close> the shared types among them that were
  kept (not deprecated, and priced in the location when one is given): the
  list is the dedicated header (exactly when \<open>D\<close> is not empty), the options of \<open>D\<close>,
  the shared header (exactly when neither \<open>D\<close> nor \<open>S\<close> is empty) and the options of
  \<open>S\<close>, in this order; \<open>D\<close> and \<open>S\<close> are each sorted by name in the order of
  \<^verbatim>\<open>localeCompare\<close>; and every group header has \<open>disabled = true\<close>. The collation is
  taken to be a total preorder.
\<close>

theorem instance_types_grouped:
  assumes "\<forall>a b. localeCompare h a b \<le> 0 \<or> localeCompare h b a \<le> 0"
    and "\<forall>a b d. localeCompare h a b \<le> 0 \<and> localeCompare h b d \<le> 0 \<longrightarrow> localeCompare h a d \<le> 0"
    and "accumulated h c ''/server_types'' server_types = Some sts"
  shows "\<exists>D S opts.
           getServerTypes h c l = Some opts
         \<and> set D = {t \<in> set sts. \<not> st_deprecated t
               \<and> (location_given l \<longrightarrow> (\<exists>p\<in>set (st_prices t). Some (price_location p) = l))
               \<and> st_cpu_type t = ''dedicated''}
         \<and> set S = {t \<in> set sts. \<not> st_deprecated t
               \<and> (location_given l \<longrightarrow> (\<exists>p\<in>set (st_prices t). Some (price_location p) = l))
               \<and> st_cpu_type t = ''shared''}
         \<and> length D = length (filter (\<lambda>t. \<not> st_deprecated t
               \<and> (location_given l \<longrightarrow> (\<exists>p\<in>set (st_prices t). Some (price_location p) = l))
               \<and> st_cpu_type t = ''dedicated'') sts)
         \<and> length S = length (filter (\<lambda>t. \<not> st_deprecated t
               \<and> (location_given l \<longrightarrow> (\<exists>p\<in>set (st_prices t). Some (price_location p) = l))
               \<and> st_cpu_type t = ''shared'') sts)
         \<and> sorted_wrt (\<lambda>a b. localeCompare h (st_name a) (st_name b) \<le> 0) D
         \<and> sorted_wrt (\<lambda>a b. localeCompare h (st_name a) (st_name b) \<le> 0) S
         \<and> opts = (if D = [] then [] else [dedicated_header]) @ map (formatServerType h l) D
                  @ (if D = [] \<or> S = [] then [] else [shared_header]) @ map (formatServerType h l) S
         \<and> (dedicated_header \<in> set opts \<longleftrightarrow> D \<noteq> [])
         \<and> (shared_header \<in> set opts \<longleftrightarrow> D \<noteq> [] \<and> S \<noteq> [])
         \<and> (\<forall>x\<in>set opts. opt_kind x = Some ''group'' \<longrightarrow> opt_disabled x = Some True)"
proof -
  let ?D = "dedicatedTypes h l sts" and ?S = "sharedTypes h l sts"
  let ?opts = "serverTypes_transform h l sts"
  have tot: "\<forall>a b. name_cmp h a b \<le> 0 \<or> name_cmp h b a \<le> 0"
    using assms(1) by (simp add: name_cmp_def)
  have tr: "\<forall>a b d. name_cmp h a b \<le> 0 \<and> name_cmp h b d \<le> 0 \<longrightarrow> name_cmp h a d \<le> 0"
    using assms(2) unfolding name_cmp_def by blast
  have res: "getServerTypes h c l = Some ?opts"
    using assms(3) by (simp add: getters_accumulated)
  have "sorted_wrt (\<lambda>a b. name_cmp h a b \<le> 0) ?D" "sorted_wrt (\<lambda>a b. name_cmp h a b \<le> 0) ?S"
    using sorted_sort_cmp [OF tot tr] by (simp_all add: dedicatedTypes_def sharedTypes_def)
  then have sD: "sorted_wrt (\<lambda>a b. localeCompare h (st_name a) (st_name b) \<le> 0) ?D"
    and sS: "sorted_wrt (\<lambda>a b. localeCompare h (st_name a) (st_name b) \<le> 0) ?S"
    by (simp_all add: name_cmp_def)
  have lD: "length ?D = length (filter (\<lambda>t. \<not> st_deprecated t
               \<and> (location_given l \<longrightarrow> (\<exists>p\<in>set (st_prices t). Some (price_location p) = l))
               \<and> st_cpu_type t = ''dedicated'') sts)"
    by (simp add: dedicatedTypes_def length_sort_cmp filter_kept_types)
  have lS: "length ?S = length (filter (\<lambda>t. \<not> st_deprecated t
               \<and> (location_given l \<longrightarrow> (\<exists>p\<in>set (st_prices t). Some (price_location p) = l))
               \<and> st_cpu_type t = ''shared'') sts)"
    by (simp add: sharedTypes_def length_sort_cmp filter_kept_types)
  have shape: "?opts = (if ?D = [] then [] else [dedicated_header]) @ map (formatServerType h l) ?D
                  @ (if ?D = [] \<or> ?S = [] then [] else [shared_header]) @ map (formatServerType h l) ?S"
    unfolding serverTypes_transform_shape by simp
  have hd: "dedicated_header \<in> set ?opts \<longleftrightarrow> ?D \<noteq> []"
    unfolding serverTypes_transform_shape
    using headers_differ header_not_formatted(1) [of h l] by auto
  have hs: "shared_header \<in> set ?opts \<longleftrightarrow> ?D \<noteq> [] \<and> ?S \<noteq> []"
    unfolding serverTypes_transform_shape
    using headers_differ header_not_formatted(2) [of h l] by auto
  have grp: "\<forall>x\<in>set ?opts. opt_kind x = Some ''group'' \<longrightarrow> opt_disabled x = Some True"
    using group_options by blast
  from res set_dedicatedTypes [of h l sts] set_sharedTypes [of h l sts] lD lS sD sS shape hd hs grp
  show ?thesis by blast
qed

lemma byte_compare_total: "byte_compare a b \<le> 0 \<or> byte_compare b a \<le> 0"
  by (induction a b rule: byte_compare.induct) auto

lemma byte_compare_trans:
  "byte_compare a b \<le> 0 \<Longrightarrow> byte_compare b d \<le> 0 \<Longrightarrow> byte_compare a d \<le> 0"
proof (induction a b arbitrary: d rule: byte_compare.induct)
  case 1
  then show ?case by simp
next
  case (2 y ys)
  then show ?case by (cases d) simp_all
next
  case (3 x xs)
  then show ?case by simp
next
  case (4 x xs y ys)
  show ?case
  proof (cases d)
    case Nil
    with 4 show ?thesis by simp
  next
    case (Cons z zs)
    have yz: "(of_char y :: nat) \<le> of_char z"
      using 4(3) Cons by (auto split: if_splits)
    show ?thesis
    proof (cases "(of_char x :: nat) < of_char y")
      case True
      with yz have "(of_char x :: nat) < of_char z" by simp
      with Cons show ?thesis by simp
    next
      case False
      with 4(2) have eq: "x = y" and r: "byte_compare xs ys \<le> 0"
        by (auto split: if_splits)
      show ?thesis
      proof (cases "(of_char y :: nat) < of_char z")
        case True
        with eq Cons show ?thesis by simp
      next
        case nlt: False
        with 4(3) Cons have eq2: "y = z" and r2: "byte_compare ys zs \<le> 0"
          by (auto split: if_splits)
        have "byte_compare xs zs \<le> 0"
          using 4(1) [OF _ _ r r2] eq by simp
        with eq eq2 Cons show ?thesis by simp
      qed
    qed
  qed
qed

lemma demo_server_types_accumulated:
  "accumulated demo_host c ''/server_types'' server_types = Some [cx22, ccx13, cx11, cax11]"
proof -
  have p: "paged demo_host c ''/server_types'' 1 =
     Inr (no_items\<lparr>server_types := Some [cx22, ccx13, cx11, cax11], last_page := Some (Num 1)\<rparr>)"
    by (simp add: paged_def request_def demo_host_def demo_fetch_def BASE_URL_def toString_int_small)
  have "\<not> continues (paged demo_host c ''/server_types'') server_types 1"
    by (simp add: continues_def p no_items_def page_le_def)
  from fetch_pages_stop [OF p this, of "[]"] show ?thesis
    by (simp add: accumulated_def items_at_def p no_items_def or_empty_def)
qed

lemma demo_type_fields:
  "st_name cx22 = ''cx22''" "st_name ccx13 = ''ccx13''" "st_name cx11 = ''cx11''"
  "st_name cax11 = ''cax11''"
  "st_deprecated cx22 = False" "st_deprecated ccx13 = False" "st_deprecated cx11 = True"
  "st_deprecated cax11 = False"
  "st_cpu_type cx22 = ''shared''" "st_cpu_type ccx13 = ''dedicated''"
  "st_cpu_type cx11 = ''shared''" "st_cpu_type cax11 = ''shared''"
  "list_ex (priced_in (Some ''fsn1'')) (st_prices cx22)"
  "list_ex (priced_in (Some ''fsn1'')) (st_prices ccx13)"
  "list_ex (priced_in (Some ''fsn1'')) (st_prices cax11)"
  by (simp_all add: cx22_def ccx13_def cx11_def cax11_def priced_in_def)

lemma demo_kept: "kept_types (Some ''fsn1'') [cx22, ccx13, cx11, cax11] = [cx22, ccx13, cax11]"
  by (simp add: kept_types_def location_given_def truthy_string_def demo_type_fields)

lemma demo_cmp:
  "name_cmp demo_host cax11 cx22 \<le> 0" "\<not> name_cmp demo_host cx22 cax11 \<le> 0"
  by (simp_all add: name_cmp_def demo_host_def demo_type_fields)

lemma demo_sorted_types:
  "dedicatedTypes demo_host (Some ''fsn1'') [cx22, ccx13, cx11, cax11] = [ccx13]"
  "sharedTypes demo_host (Some ''fsn1'') [cx22, ccx13, cx11, cax11] = [cax11, cx22]"
  by (simp_all add: dedicatedTypes_def sharedTypes_def demo_kept demo_type_fields sort_cmp_def
      demo_cmp)

theorem instance_types_grouped_witness:
  "\<exists>opts. getServerTypes demo_host ''cred'' (Some ''fsn1'') = Some opts
      \<and> dedicated_header \<in> set opts \<and> shared_header \<in> set opts"
proof -
  have lc: "localeCompare demo_host = byte_compare" by (simp add: demo_host_def)
  have t: "\<forall>a b. localeCompare demo_host a b \<le> 0 \<or> localeCompare demo_host b a \<le> 0"
    unfolding lc using byte_compare_total by blast
  have tr: "\<forall>a b d. localeCompare demo_host a b \<le> 0 \<and> localeCompare demo_host b d \<le> 0
              \<longrightarrow> localeCompare demo_host a d \<le> 0"
    unfolding lc using byte_compare_trans by blast
  from instance_types_grouped [OF t tr demo_server_types_accumulated, of "''cred''" "Some ''fsn1''"]
  obtain D S opts where r: "getServerTypes demo_host ''cred'' (Some ''fsn1'') = Some opts"
    and D: "set D = {t \<in> set [cx22, ccx13, cx11, cax11]. \<not> st_deprecated t
          \<and> (location_given (Some ''fsn1'')
               \<longrightarrow> (\<exists>p\<in>set (st_prices t). Some (price_location p) = Some ''fsn1''))
          \<and> st_cpu_type t = ''dedicated''}"
    and S: "set S = {t \<in> set [cx22, ccx13, cx11, cax11]. \<not> st_deprecated t
          \<and> (location_given (Some ''fsn1'')
               \<longrightarrow> (\<exists>p\<in>set (st_prices t). Some (price_location p) = Some ''fsn1''))
          \<and> st_cpu_type t = ''shared''}"
    and hd: "(dedicated_header \<in> set opts) = (D \<noteq> [])"
    and hs: "(shared_header \<in> set opts) = (D \<noteq> [] \<and> S \<noteq> [])"
    by (elim exE conjE) (rule that)
  have px: "\<exists>p\<in>set (st_prices ccx13). Some (price_location p) = Some ''fsn1''"
    "\<exists>p\<in>set (st_prices cax11). Some (price_location p) = Some ''fsn1''"
    using demo_type_fields(14,15) by (simp_all add: list_ex_iff priced_in_def)
  have "ccx13 \<in> set D" unfolding D using px(1) by (simp add: demo_type_fields)
  then have "D \<noteq> []" by auto
  moreover have "cax11 \<in> set S" unfolding S using px(2) by (simp add: demo_type_fields)
  then have "S \<noteq> []" by auto
  ultimately have "dedicated_header \<in> set opts" "shared_header \<in> set opts"
    using hd hs by simp_all
  then show ?thesis using r by blast
qed

text \<open>The list itself, on that provider, for the location \<open>fsn1\<close> and for no location.\<close>

lemma demo_server_types:
  "getServerTypes demo_host ''cred'' (Some ''fsn1'') =
     Some [dedicated_header, formatServerType demo_host (Some ''fsn1'') ccx13,
           shared_header, formatServerType demo_host (Some ''fsn1'') cax11,
           formatServerType demo_host (Some ''fsn1'') cx22]"
  by (simp add: getters_accumulated demo_server_types_accumulated serverTypes_transform_shape
      demo_sorted_types)


subsection \<open>Prices in the labels\<close>

lemma find_priced_in:
  assumes "list_ex (priced_in l) ps"
  shows "\<exists>p. find (priced_in l) ps = Some p \<and> p \<in> set ps \<and> Some (price_location p) = l"
proof -
  from assms have "find (priced_in l) ps \<noteq> None"
    by (auto simp: find_None_iff list_ex_iff)
  then obtain p where p: "find (priced_in l) ps = Some p" by blast
  then have "p \<in> set ps" "priced_in l p"
    by (auto simp: find_Some_iff in_set_conv_nth)
  with p show ?thesis by (auto simp: priced_in_def)
qed

lemma kept_types_priced:
  "location_given l \<Longrightarrow> t \<in> set (kept_types l sts) \<Longrightarrow> list_ex (priced_in l) (st_prices t)"
  by (simp add: kept_types_def Let_def)

lemma formatted_types:
  assumes "x \<in> set (serverTypes_transform h l sts)" "opt_kind x \<noteq> Some ''group''"
  shows "\<exists>t\<in>set (kept_types l sts). t \<in> set sts \<and> x = formatServerType h l t"
proof -
  have k: "set (dedicatedTypes h l sts) \<subseteq> set (kept_types l sts)"
    "set (sharedTypes h l sts) \<subseteq> set (kept_types l sts)"
    by (auto simp: dedicatedTypes_def sharedTypes_def set_sort_cmp)
  have "set (kept_types l sts) \<subseteq> set sts" by (auto simp: set_kept_types)
  with k assms show ?thesis
    unfolding serverTypes_transform_shape
    by (auto simp: header_fields split: if_splits)
qed

text \<open>
  C10. When \<^verbatim>\<open>getServerTypes\<close> is given a location, every option of the result that
  is not a group header comes from one of the accumulated types \<open>sts\<close> with a price
  entry for that location: the lookup of the entry succeeds, and the label carries the
  price segment.
\<close>

theorem filtered_types_carry_price:
  assumes "location_given l" "accumulated h c ''/server_types'' server_types = Some sts"
  shows "\<exists>opts. getServerTypes h c l = Some opts \<and>
           (\<forall>x\<in>set opts. opt_kind x \<noteq> Some ''group'' \<longrightarrow>
              (\<exists>t\<in>set sts. \<exists>p\<in>set (st_prices t).
                  Some (price_location p) = l
                \<and> find (\<lambda>p. Some (price_location p) = l) (st_prices t) = Some p
                \<and> opt_value x = VStr (st_name t)
                \<and> opt_label x =
                    st_name t @ '' ('' @ (EURO @ toFixed2 h (price_monthly_gross p) @ ''/mo, '')
                      @ st_architecture t @ '', '' @ toString (st_cores t) @ '' vCPU, ''
                      @ toString (st_memory t) @ '' GB RAM, '' @ toString (st_disk t) @ '' GB SSD)''))"
proof -
  have res: "getServerTypes h c l = Some (serverTypes_transform h l sts)"
    using assms(2) by (simp add: getters_accumulated)
  have "\<exists>t\<in>set sts. \<exists>p\<in>set (st_prices t).
                  Some (price_location p) = l
                \<and> find (\<lambda>p. Some (price_location p) = l) (st_prices t) = Some p
                \<and> opt_value x = VStr (st_name t)
                \<and> opt_label x =
                    st_name t @ '' ('' @ (EURO @ toFixed2 h (price_monthly_gross p) @ ''/mo, '')
                      @ st_architecture t @ '', '' @ toString (st_cores t) @ '' vCPU, ''
                      @ toString (st_memory t) @ '' GB RAM, '' @ toString (st_disk t) @ '' GB SSD)''"
    if x: "x \<in> set (serverTypes_transform h l sts)" "opt_kind x \<noteq> Some ''group''" for x
  proof -
    from formatted_types [OF x] obtain t where t: "t \<in> set (kept_types l sts)" "t \<in> set sts"
        "x = formatServerType h l t" by blast
    from find_priced_in [OF kept_types_priced [OF assms(1) t(1)]]
    obtain p where p: "find (priced_in l) (st_prices t) = Some p" "p \<in> set (st_prices t)"
        "Some (price_location p) = l" by blast
    have f: "find (\<lambda>p. Some (price_location p) = l) (st_prices t) = Some p"
      using p(1) by (simp add: priced_in_def [abs_def])
    have "priceLabel h l t = EURO @ toFixed2 h (price_monthly_gross p) @ ''/mo, ''"
      using assms(1) p(1) by (simp add: priceLabel_def)
    then have "opt_label x =
                    st_name t @ '' ('' @ (EURO @ toFixed2 h (price_monthly_gross p) @ ''/mo, '')
                      @ st_architecture t @ '', '' @ toString (st_cores t) @ '' vCPU, ''
                      @ toString (st_memory t) @ '' GB RAM, '' @ toString (st_disk t) @ '' GB SSD)''"
      using t(3) by (simp add: formatServerType_def plain_option_def)
    with t p f show ?thesis by (auto simp: formatServerType_fields)
  qed
  with res show ?thesis by blast
qed

lemma toString_demo:
  "toString_int 2 = ''2''" "toString_int 8 = ''8''" "toString_int 80 = ''80''"
  by code_simp+

theorem filtered_types_carry_price_witness:
  "\<exists>opts. getServerTypes demo_host ''cred'' (Some ''fsn1'') = Some opts
      \<and> opt_label (opts ! 1) =
          ''ccx13 ('' @ EURO @ ''14.86/mo, x86, 2 vCPU, 8 GB RAM, 80 GB SSD)''"
proof -
  have g: "location_given (Some ''fsn1'')"
    by (simp add: location_given_def truthy_string_def)
  from filtered_types_carry_price [OF g demo_server_types_accumulated, of "''cred''"]
  obtain opts where r: "getServerTypes demo_host ''cred'' (Some ''fsn1'') = Some opts"
    and a: "\<forall>x\<in>set opts. opt_kind x \<noteq> Some ''group'' \<longrightarrow>
              (\<exists>t\<in>set [cx22, ccx13, cx11, cax11]. \<exists>p\<in>set (st_prices t).
                  Some (price_location p) = Some ''fsn1''
                \<and> find (\<lambda>p. Some (price_location p) = Some ''fsn1'') (st_prices t) = Some p
                \<and> opt_value x = VStr (st_name t)
                \<and> opt_label x =
                    st_name t @ '' ('' @ (EURO @ toFixed2 demo_host (price_monthly_gross p) @ ''/mo, '')
                      @ st_architecture t @ '', '' @ toString (st_cores t) @ '' vCPU, ''
                      @ toString (st_memory t) @ '' GB RAM, '' @ toString (st_disk t) @ '' GB SSD)'')"
    by (elim exE conjE) (rule that)
  from r demo_server_types have o: "opts ! 1 = formatServerType demo_host (Some ''fsn1'') ccx13"
    by auto
  then have "opts ! 1 \<in> set opts" using r demo_server_types by auto
  moreover have "opt_kind (opts ! 1) \<noteq> Some ''group''"
    using o by (simp add: formatServerType_fields)
  ultimately obtain t p where t: "t \<in> set [cx22, ccx13, cx11, cax11]" "p \<in> set (st_prices t)"
      "find (\<lambda>p. Some (price_location p) = Some ''fsn1'') (st_prices t) = Some p"
      "opt_value (opts ! 1) = VStr (st_name t)"
      "opt_label (opts ! 1) =
          st_name t @ '' ('' @ (EURO @ toFixed2 demo_host (price_monthly_gross p) @ ''/mo, '')
            @ st_architecture t @ '', '' @ toString (st_cores t) @ '' vCPU, ''
            @ toString (st_memory t) @ '' GB RAM, '' @ toString (st_disk t) @ '' GB SSD)''"
    using a by blast
  from t(4) o have "st_name t = ''ccx13''" by (simp add: formatServerType_fields demo_type_fields)
  with t(1) have "t = ccx13" by (auto simp: demo_type_fields)
  with t(3) have "price_monthly_gross p = ''14.8600''" by (auto simp: ccx13_def)
  with t(5) \<open>t = ccx13\<close> have "opt_label (opts ! 1) =
          ''ccx13 ('' @ EURO @ ''14.86/mo, x86, 2 vCPU, 8 GB RAM, 80 GB SSD)''"
    by (simp add: ccx13_def demo_host_def demo_toFixed2_def toString_demo)
  with r show ?thesis by blast
qed

text \<open>Without a location, or with the empty string as the location, no label has a price.\<close>

lemma no_location_no_price: "\<not> location_given l \<Longrightarrow> priceLabel h l t = []"
  by (simp add: priceLabel_def)


subsection \<open>Uniqueness of the option values\<close>

lemma plain_option_fields:
  "opt_value (plain_option v l) = v" "opt_kind (plain_option v l) = None"
  by (simp_all add: plain_option_def)

lemma locations_values:
  "map opt_value (locations_transform h xs) =
     map (\<lambda>x. VStr (loc_name x)) (sort_cmp (location_cmp h) xs)"
  by (cases "xs = []") (simp_all add: locations_transform_def location_option_def Let_def sort_cmp_Nil)

lemma images_values:
  "map opt_value (images_transform h xs) = map (\<lambda>x. VNum (img_id x)) (sort_cmp (image_cmp h) xs)"
  by (simp add: images_transform_def image_option_def plain_option_fields)

lemma plain_values:
  "map opt_value (placementGroups_transform pgs) = map (\<lambda>x. VNum (pg_id x)) pgs"
  "map opt_value (networks_transform ns) = map (\<lambda>x. VNum (net_id x)) ns"
  "map opt_value (firewalls_transform fs) = map (\<lambda>x. VNum (fw_id x)) fs"
  "map opt_value (sshKeys_transform ks) = map (\<lambda>x. VNum (key_id x)) ks"
  by (simp_all add: placementGroups_transform_def networks_transform_def firewalls_transform_def
      sshKeys_transform_def placementGroup_option_def network_option_def firewall_option_def
      sshKey_option_def plain_option_fields)

lemma no_group_options:
  "x \<in> set (locations_transform h ls) \<Longrightarrow> opt_kind x = None"
  "x \<in> set (images_transform h is) \<Longrightarrow> opt_kind x = None"
  "x \<in> set (placementGroups_transform pgs) \<Longrightarrow> opt_kind x = None"
  "x \<in> set (networks_transform ns) \<Longrightarrow> opt_kind x = None"
  "x \<in> set (firewalls_transform fs) \<Longrightarrow> opt_kind x = None"
  "x \<in> set (sshKeys_transform ks) \<Longrightarrow> opt_kind x = None"
  by (auto simp: locations_transform_def location_option_def Let_def images_transform_def
      image_option_def placementGroups_transform_def networks_transform_def
      firewalls_transform_def sshKeys_transform_def placementGroup_option_def network_option_def
      firewall_option_def sshKey_option_def plain_option_fields split: if_splits)

lemma serverTypes_values_distinct:
  assumes d: "distinct (map (\<lambda>x. VStr (st_name x)) sts)"
    and nd: "VStr ''dedicated-header'' \<notin> set (map (\<lambda>x. VStr (st_name x)) sts)"
    and ns: "VStr ''shared-header'' \<notin> set (map (\<lambda>x. VStr (st_name x)) sts)"
  shows "distinct (map opt_value (serverTypes_transform h l sts))"
proof -
  let ?f = "\<lambda>x. VStr (st_name x)"
  let ?D = "dedicatedTypes h l sts" and ?S = "sharedTypes h l sts"
  have dk: "distinct (map ?f (kept_types l sts))"
    using d by (simp add: kept_types_def Let_def distinct_map_filter)
  have dD: "distinct (map ?f ?D)" and dS: "distinct (map ?f ?S)"
    using dk by (simp_all add: dedicatedTypes_def sharedTypes_def distinct_map_sort_cmp
        distinct_map_filter)
  have inj: "inj_on ?f (set sts)" using d by (simp add: distinct_map)
  have sub: "set ?D \<subseteq> set sts" "set ?S \<subseteq> set sts"
    by (auto simp: set_dedicatedTypes set_sharedTypes)
  have disj: "?f a \<noteq> ?f b" if "a \<in> set ?D" "b \<in> set ?S" for a b
  proof
    assume "?f a = ?f b"
    with inj sub that have "a = b" by (meson inj_onD subsetD)
    with that show False by (auto simp: set_dedicatedTypes set_sharedTypes)
  qed
  have hD: "VStr ''dedicated-header'' \<notin> ?f ` set ?D" "VStr ''dedicated-header'' \<notin> ?f ` set ?S"
    using nd sub by auto
  have hS: "VStr ''shared-header'' \<notin> ?f ` set ?D" "VStr ''shared-header'' \<notin> ?f ` set ?S"
    using ns sub by auto
  have dDS: "distinct (map ?f ?D @ map ?f ?S)"
    using dD dS disj by auto
  have "map opt_value (serverTypes_transform h l sts) =
          (if ?D = [] then [] else VStr ''dedicated-header'' # map ?f ?D)
          @ (if ?S = [] then [] else (if ?D = [] then [] else [VStr ''shared-header'']) @ map ?f ?S)"
    unfolding serverTypes_transform_shape
    by (simp add: header_fields formatServerType_fields comp_def)
  then show ?thesis
    using dD dS dDS hD hS by auto
qed

text \<open>
  C9, amended. For every kind: when the items the loop accumulated over all pages carry
  pairwise different values (names for locations and instance types, ids for the other
  kinds) and none of them is one of the two header values, the getter returns a list in
  which every value occurs once; and every group header of a returned list has
  \<open>disabled = true\<close>. The getters do not remove or detect duplicates themselves.
\<close>

theorem option_values_unique:
  assumes "fetched_values h c kind = Some vs" "distinct vs"
    and "VStr ''dedicated-header'' \<notin> set vs" "VStr ''shared-header'' \<notin> set vs"
  shows "\<exists>opts. fetchKind h c kind = Some opts \<and> distinct (map opt_value opts)
           \<and> (\<forall>x\<in>set opts. opt_kind x = Some ''group'' \<longrightarrow> opt_disabled x = Some True)"
proof (cases kind)
  case Locations
  with assms(1) obtain xs where xs: "accumulated h c ''/locations'' locations = Some xs"
      "vs = map (\<lambda>x. VStr (loc_name x)) xs" by auto
  then have "fetchKind h c kind = Some (locations_transform h xs)"
    using Locations by (simp add: getters_accumulated)
  moreover have "distinct (map opt_value (locations_transform h xs))"
    using assms(2) xs(2) by (simp add: locations_values distinct_map_sort_cmp)
  ultimately show ?thesis using no_group_options(1) by fastforce
next
  case (ServerTypes l)
  with assms(1) obtain xs where xs: "accumulated h c ''/server_types'' server_types = Some xs"
      "vs = map (\<lambda>x. VStr (st_name x)) xs" by auto
  then have "fetchKind h c kind = Some (serverTypes_transform h l xs)"
    using ServerTypes by (simp add: getters_accumulated)
  moreover have "distinct (map opt_value (serverTypes_transform h l xs))"
    using serverTypes_values_distinct [of xs h l] assms(2-4) xs(2) by simp
  ultimately show ?thesis using group_options by blast
next
  case Images
  with assms(1) obtain xs where xs: "accumulated h c ''/images'' images = Some xs"
      "vs = map (\<lambda>x. VNum (img_id x)) xs" by auto
  then have "fetchKind h c kind = Some (images_transform h xs)"
    using Images by (simp add: getters_accumulated)
  moreover have "distinct (map opt_value (images_transform h xs))"
    using assms(2) xs(2) by (simp add: images_values distinct_map_sort_cmp)
  ultimately show ?thesis using no_group_options(2) by fastforce
next
  case PlacementGroups
  with assms(1) obtain xs where xs: "accumulated h c ''/placement_groups'' placement_groups = Some xs"
      "vs = map (\<lambda>x. VNum (pg_id x)) xs" by auto
  then have "fetchKind h c kind = Some (placementGroups_transform xs)"
    using PlacementGroups by (simp add: getters_accumulated)
  moreover have "distinct (map opt_value (placementGroups_transform xs))"
    using assms(2) xs(2) by (simp add: plain_values)
  ultimately show ?thesis using no_group_options(3) by fastforce
next
  case Networks
  with assms(1) obtain xs where xs: "accumulated h c ''/networks'' networks = Some xs"
      "vs = map (\<lambda>x. VNum (net_id x)) xs" by auto
  then have "fetchKind h c kind = Some (networks_transform xs)"
    using Networks by (simp add: getters_accumulated)
  moreover have "distinct (map opt_value (networks_transform xs))"
    using assms(2) xs(2) by (simp add: plain_values)
  ultimately show ?thesis using no_group_options(4) by fastforce
next
  case Firewalls
  with assms(1) obtain xs where xs: "accumulated h c ''/firewalls'' firewalls = Some xs"
      "vs = map (\<lambda>x. VNum (fw_id x)) xs" by auto
  then have "fetchKind h c kind = Some (firewalls_transform xs)"
    using Firewalls by (simp add: getters_accumulated)
  moreover have "distinct (map opt_value (firewalls_transform xs))"
    using assms(2) xs(2) by (simp add: plain_values)
  ultimately show ?thesis using no_group_options(5) by fastforce
next
  case SshKeys
  with assms(1) obtain xs where xs: "accumulated h c ''/ssh_keys'' ssh_keys = Some xs"
      "vs = map (\<lambda>x. VNum (key_id x)) xs" by auto
  then have "fetchKind h c kind = Some (sshKeys_transform xs)"
    using SshKeys by (simp add: getters_accumulated)
  moreover have "distinct (map opt_value (sshKeys_transform xs))"
    using assms(2) xs(2) by (simp add: plain_values)
  ultimately show ?thesis using no_group_options(6) by fastforce
qed

lemma demo_fetched_values:
  "fetched_values demo_host c Locations = Some [VStr ''nbg1'', VStr ''fsn1'', VStr ''ash'']"
  "fetched_values demo_host c (ServerTypes l) =
     Some [VStr ''cx22'', VStr ''ccx13'', VStr ''cx11'', VStr ''cax11'']"
  by (simp_all add: accumulated_def demo_locations_accumulated demo_server_types_accumulated [unfolded accumulated_def]
      nbg1_def fsn1_def ash_def demo_type_fields)

theorem option_values_unique_witness:
  "(\<exists>opts. fetchKind demo_host ''cred'' Locations = Some opts \<and> distinct (map opt_value opts))
   \<and> (\<exists>opts. fetchKind demo_host ''cred'' (ServerTypes (Some ''fsn1'')) = Some opts
          \<and> distinct (map opt_value opts))"
proof -
  have "\<exists>opts. fetchKind demo_host ''cred'' Locations = Some opts \<and> distinct (map opt_value opts)
           \<and> (\<forall>x\<in>set opts. opt_kind x = Some ''group'' \<longrightarrow> opt_disabled x = Some True)"
    by (rule option_values_unique [OF demo_fetched_values(1)]) simp_all
  moreover
  have "\<exists>opts. fetchKind demo_host ''cred'' (ServerTypes (Some ''fsn1'')) = Some opts
           \<and> distinct (map opt_value opts)
           \<and> (\<forall>x\<in>set opts. opt_kind x = Some ''group'' \<longrightarrow> opt_disabled x = Some True)"
    by (rule option_values_unique [OF demo_fetched_values(2)]) simp_all
  ultimately show ?thesis by blast
qed

lemma repeating_locations_accumulated:
  "fetch_pages (paged repeating_host c ''/locations'') locations 1 [] = Some (Inr [fsn1, fsn1])"
proof -
  let ?req = "paged repeating_host c ''/locations''"
  have p: "?req 1 = Inr (no_items\<lparr>locations := Some [fsn1], last_page := Some (Num 2)\<rparr>)"
    "?req 2 = Inr (no_items\<lparr>locations := Some [fsn1], last_page := Some (Num 2)\<rparr>)"
    by (simp_all add: paged_def request_def repeating_host_def repeating_fetch_def BASE_URL_def
        toString_int_small)
  have c1: "continues ?req locations 1"
    by (simp add: continues_def p no_items_def length_truthy_def page_le_def)
  have c2: "\<not> continues ?req locations 2"
    by (simp add: continues_def p no_items_def length_truthy_def page_le_def)
  have "fetch_pages ?req locations 1 [] = fetch_pages ?req locations 2 ([] @ items_at ?req locations 1)"
    using fetch_pages_continue [OF c1, of "[]"] by simp
  also have "\<dots> = Some (Inr (([] @ items_at ?req locations 1) @ items_at ?req locations 2))"
    by (rule fetch_pages_stop [OF p(2) c2])
  finally show ?thesis
    by (simp add: items_at_def p no_items_def or_empty_def)
qed

text \<open>
  The claim as stated fails: a provider that lists a location on two pages gets it
  twice, with the same value, from \<^verbatim>\<open>getLocations\<close>.
\<close>

theorem repeated_item_repeats_value:
  "fetchKind repeating_host ''cred'' Locations = Some [location_option fsn1, location_option fsn1]
   \<and> \<not> distinct (map opt_value [location_option fsn1, location_option fsn1])"
  by (simp add: getLocations_def repeating_locations_accumulated catch_all_def
      locations_transform_def sort_cmp_def)


subsection \<open>The watcher of the location\<close>

lemma list_ex_value_is:
  "list_ex (\<lambda>x. value_is (opt_value x) sel) types =
     (case sel of None \<Rightarrow> False | Some v \<Rightarrow> VStr v \<in> opt_value ` set types)"
proof (cases sel)
  case None
  then show ?thesis by (simp add: list_ex_iff)
next
  case (Some v)
  have "value_is w (Some v) = (w = VStr v)" for w by (cases w) auto
  with Some show ?thesis by (force simp: list_ex_iff image_iff)
qed

lemma location_fetched_result:
  "serverTypes (location_fetched types s) = types"
  "serverConfiguration (location_fetched types s) =
     (serverConfiguration s)\<lparr>serverType :=
        (case serverType (serverConfiguration s) of
           None \<Rightarrow> None
         | Some v \<Rightarrow> if VStr v \<in> opt_value ` set types then Some v else None)\<rparr>"
  "loadingData (location_fetched types s) = False"
  by (simp_all add: location_fetched_def Let_def list_ex_value_is split: option.splits)

text \<open>
  C5, amended. When the location changes and the component holds an aggregator (it was
  mounted with a credential), the watcher fetches the instance types for the new
  location; when the fetch returns, the list of instance-type options is the fetched
  list, the selected instance type is unset if its value is not among the values of
  that list (an empty list included) and unchanged if it is, and no other field of the
  configuration changes.
\<close>

theorem location_change_refetches:
  assumes "hcloud s = Some credentialId"
    and "getServerTypes h credentialId newLocation = Some types"
  shows "\<exists>s'. location_watcher h newLocation s = Some s'
           \<and> serverTypes s' = types
           \<and> serverConfiguration s' =
               (serverConfiguration s)\<lparr>serverType :=
                  (case serverType (serverConfiguration s) of
                     None \<Rightarrow> None
                   | Some v \<Rightarrow> if VStr v \<in> opt_value ` set types then Some v else None)\<rparr>"
  using assms by (simp add: location_watcher_def location_fetched_result)

lemma demo_no_types_in_ash:
  "getServerTypes demo_host c (Some ''ash'') = Some []"
proof -
  have "kept_types (Some ''ash'') [cx22, ccx13, cx11, cax11] = []"
    by (simp add: kept_types_def location_given_def truthy_string_def priced_in_def
        cx22_def ccx13_def cx11_def cax11_def)
  then show ?thesis
    by (simp add: getters_accumulated demo_server_types_accumulated serverTypes_transform_shape
        dedicatedTypes_def sharedTypes_def sort_cmp_Nil)
qed

theorem location_change_refetches_witness:
  "(\<exists>s'. location_watcher demo_host (Some ''ash'')
             ((component_of valid_configuration)\<lparr>hcloud := Some ''cred''\<rparr>) = Some s'
        \<and> serverTypes s' = []
        \<and> serverType (serverConfiguration s') = None)
   \<and> (\<exists>s'. location_watcher demo_host (Some ''fsn1'')
             ((component_of valid_configuration)\<lparr>hcloud := Some ''cred''\<rparr>) = Some s'
        \<and> serverType (serverConfiguration s') = Some ''cx22'')"
proof -
  let ?s = "(component_of valid_configuration)\<lparr>hcloud := Some ''cred''\<rparr>"
  have h: "hcloud ?s = Some ''cred''" by simp
  have sel: "serverType (serverConfiguration ?s) = Some ''cx22''"
    by (simp add: component_of_def valid_configuration_def)
  from location_change_refetches [OF h demo_no_types_in_ash]
  have a: "\<exists>s'. location_watcher demo_host (Some ''ash'') ?s = Some s'
        \<and> serverTypes s' = [] \<and> serverType (serverConfiguration s') = None"
    using sel by auto
  have "VStr ''cx22'' \<in> opt_value `
          set [dedicated_header, formatServerType demo_host (Some ''fsn1'') ccx13,
               shared_header, formatServerType demo_host (Some ''fsn1'') cax11,
               formatServerType demo_host (Some ''fsn1'') cx22]"
    by (simp add: formatServerType_fields demo_type_fields)
  with location_change_refetches [OF h demo_server_types]
  have b: "\<exists>s'. location_watcher demo_host (Some ''fsn1'') ?s = Some s'
        \<and> serverType (serverConfiguration s') = Some ''cx22''"
    using sel by auto
  from a b show ?thesis by blast
qed

text \<open>
  The claim as stated fails when the component holds no aggregator (no credential, or
  not mounted yet): the watcher does nothing, so nothing is fetched and a selection stays
  although the list of options (here empty, as a fetch for this location would be)
  does not contain it.
\<close>

theorem no_aggregator_no_refetch:
  "location_watcher demo_host (Some ''ash'') (component_of valid_configuration)
     = Some (component_of valid_configuration)
   \<and> serverType (serverConfiguration (component_of valid_configuration)) = Some ''cx22''
   \<and> serverTypes (component_of valid_configuration) = []
   \<and> getServerTypes demo_host ''cred'' (Some ''ash'') = Some []"
  by (simp add: location_watcher_def component_of_def valid_configuration_def demo_no_types_in_ash)


subsection \<open>The round trip through the host's record\<close>






















subsection \<open>The two guard flags\<close>







text \<open>
  On a valid configuration the watcher of the configuration does perform an outbound
  sync when no inbound step is under way; the guard is what withholds it.
\<close>

lemma outbound_when_not_guarded:
  "validate (serverConfiguration s) \<Longrightarrow> \<not> syncingFromProps s \<Longrightarrow>
   outbound_syncs (config_watcher s) = Suc (outbound_syncs s)"
  by (simp add: config_watcher_def Let_def updateValue_def outbound_syncs_def)



end
